theory Spec2Isabelle
  imports Main "HOL-Library.Sublist" "HOL-Library.Product_Lexorder"
begin

section \<open>Data model of \<open>src/lib/timetableAlgorithm.ts\<close>\<close>

text \<open>
  Strings are \<open>string\<close> (lists of 8-bit characters), numbers that the code uses as
  counts are \<open>int\<close> (hour counts, semester) or \<open>nat\<close> (loop ordinals, clock
  readings). Field names shared by several interfaces carry the interface as suffix.
\<close>

record TimeSlot =
  day :: string
  time :: string
  duration :: nat

datatype SessionType = Theory | Practical

text \<open>
  The value stored in \<open>studentCount\<close>: a number, or the value of a property that the
  lookup table inherits when the program type happens to name one.
\<close>

datatype StudentCount = Students nat | InheritedValue string

record TimetableEntry =
  id_entry :: string
  courseId :: string
  courseName :: string
  courseCode :: string
  facultyId :: string
  facultyName :: string
  roomId :: string
  roomName :: string
  programId :: string
  programName :: string
  timeSlot :: TimeSlot
  studentCount :: StudentCount
  type_entry :: SessionType

datatype ConstraintType =
  faculty_conflict | room_conflict | student_conflict | faculty_availability | room_availability

datatype Severity = high | medium | low

record Constraint =
  type_constraint :: ConstraintType
  description :: string
  severity :: Severity

record GenerationResult =
  timetable :: "TimetableEntry list"
  conflicts :: "Constraint list"
  success :: bool
  message :: string

record Program =
  id_program :: string
  name_program :: string
  type_program :: string

record Course =
  id_course :: string
  name_course :: string
  code :: string
  program :: string
  isElective :: bool
  semester :: int
  theoryHours :: int
  practicalHours :: int
  description_course :: string

record Faculty =
  id_faculty :: string
  name_faculty :: string
  canTeachPrograms :: "string list"
  expertise :: "string list"
  unavailableSlots_faculty :: "string list option"

record Room =
  id_room :: string
  name_room :: string
  type_room :: string
  unavailableSlots_room :: "string list option"

text \<open>The four private collections of \<open>TimetableGenerator\<close>, as \<open>loadData\<close> leaves them.\<close>

record Catalog =
  programs :: "Program list"
  courses :: "Course list"
  faculty :: "Faculty list"
  rooms :: "Room list"

text \<open>
  What the JavaScript engine supplies: \<open>String.prototype.toLowerCase\<close>, and the test
  whether a string names a property that every object inherits from \<open>Object.prototype\<close>
  (\<open>constructor\<close>, \<open>toString\<close> and the like).
\<close>

record Host =
  toLowerCase :: "string \<Rightarrow> string"
  inheritsProperty :: "string \<Rightarrow> bool"

definition WEEKDAYS :: "string list" where
  "WEEKDAYS = [''Monday'', ''Tuesday'', ''Wednesday'', ''Thursday'', ''Friday'', ''Saturday'']"

definition TIME_SLOTS :: "string list" where
  "TIME_SLOTS = [''09:00-10:00'', ''10:00-11:00'', ''11:00-12:00'', ''12:00-13:00'',
                 ''13:00-14:00'', ''14:00-15:00'', ''15:00-16:00'', ''16:00-17:00'']"

section \<open>String helpers of the host language\<close>

text \<open>Decimal rendering of a non-negative integer inside a template literal.\<close>

function numberToString :: "nat \<Rightarrow> string" where
  "numberToString n =
     (if n < 10 then [char_of (48 + n)]
      else numberToString (n div 10) @ [char_of (48 + n mod 10)])"
  by pat_completeness auto
termination
  by (relation "measure (\<lambda>n. n)") auto

declare numberToString.simps [simp del]

text \<open>\<open>String.prototype.includes\<close>: the argument occurs as a contiguous substring.\<close>

fun includes_str :: "string \<Rightarrow> string \<Rightarrow> bool" where
  "includes_str [] sub = (sub = [])"
| "includes_str (c # cs) sub = (prefix sub (c # cs) \<or> includes_str cs sub)"

text \<open>\<open>xs[0] || ys[0]\<close> on arrays of objects: \<open>None\<close> stands for \<open>undefined\<close>.\<close>

definition firstOr :: "'a list \<Rightarrow> 'a list \<Rightarrow> 'a option" where
  "firstOr xs ys =
     (case xs of x # _ \<Rightarrow> Some x
      | [] \<Rightarrow> (case ys of y # _ \<Rightarrow> Some y | [] \<Rightarrow> None))"

text \<open>
  \<open>Array.prototype.sort\<close> with a comparator: the sort is stable, so for a consistent
  comparator its result is the one insertion sort computes.
\<close>

fun insort_cmp :: "('a \<Rightarrow> 'a \<Rightarrow> int) \<Rightarrow> 'a \<Rightarrow> 'a list \<Rightarrow> 'a list" where
  "insort_cmp cmp x [] = [x]"
| "insort_cmp cmp x (y # ys) =
     (if cmp x y \<le> 0 then x # y # ys else y # insort_cmp cmp x ys)"

definition sort_cmp :: "('a \<Rightarrow> 'a \<Rightarrow> int) \<Rightarrow> 'a list \<Rightarrow> 'a list" where
  "sort_cmp cmp xs = foldr (insort_cmp cmp) xs []"

section \<open>Session Expander: \<open>createCourseEntries\<close>\<close>

text \<open>The kind tag \<open>'theory' | 'practical'\<close> as it is spliced into the identifier.\<close>

definition typeToString :: "SessionType \<Rightarrow> string" where
  "typeToString ty = (case ty of Theory \<Rightarrow> ''theory'' | Practical \<Rightarrow> ''practical'')"

text \<open>
  The lookup \<open>baseCounts[program.type] || 30\<close>: an own key of the table gives its
  number; a name that the table inherits gives the inherited value, which is truthy, so
  the default is not taken; every other string gives 30.
\<close>

definition estimateStudentCount :: "Host \<Rightarrow> Program \<Rightarrow> StudentCount" where
  "estimateStudentCount host prog =
     (if type_program prog = ''B.Ed'' then Students 40
      else if type_program prog = ''M.Ed'' then Students 30
      else if type_program prog = ''FYUP'' then Students 60
      else if type_program prog = ''ITEP'' then Students 35
      else if inheritsProperty host (type_program prog) then InheritedValue (type_program prog)
      else Students 30)"

text \<open>
  The two halves of \<open>createCourseEntries\<close> that pick the faculty member and the room;
  \<open>None\<close> is the early \<open>return entries\<close> with nothing pushed.
\<close>

definition canTeach :: "Program \<Rightarrow> Faculty \<Rightarrow> bool" where
  "canTeach prog f = (id_program prog \<in> set (canTeachPrograms f))"

definition hasExpertise :: "Host \<Rightarrow> Course \<Rightarrow> Faculty \<Rightarrow> bool" where
  "hasExpertise host course f =
     (\<exists>exp \<in> set (expertise f).
        includes_str (toLowerCase host (name_course course)) (toLowerCase host exp) \<or>
        includes_str (toLowerCase host (description_course course)) (toLowerCase host exp))"

definition selectFaculty :: "Host \<Rightarrow> Catalog \<Rightarrow> Course \<Rightarrow> Program \<Rightarrow> Faculty option" where
  "selectFaculty host cat course prog =
     (let suitableFaculty = filter (\<lambda>f. canTeach prog f \<and> hasExpertise host course f) (faculty cat);
          suitableFaculty1 =
            (if suitableFaculty = []
             then suitableFaculty @ filter (canTeach prog) (faculty cat)
             else suitableFaculty)
      in firstOr suitableFaculty1 (faculty cat))"

definition roomSuits :: "SessionType \<Rightarrow> Room \<Rightarrow> bool" where
  "roomSuits ty room =
     (if ty = Practical
      then type_room room = ''Laboratory'' \<or> type_room room = ''Computer Lab''
      else type_room room = ''Classroom'' \<or> type_room room = ''Seminar Hall'')"

definition selectRoom :: "Catalog \<Rightarrow> SessionType \<Rightarrow> Room option" where
  "selectRoom cat ty = firstOr (filter (roomSuits ty) (rooms cat)) (rooms cat)"

text \<open>
  The record pushed in iteration \<open>i\<close> of the loop; \<open>stamp\<close> is what \<open>Date.now()\<close>
  returned in that iteration.
\<close>

definition newEntry ::
  "Host \<Rightarrow> Course \<Rightarrow> Program \<Rightarrow> SessionType \<Rightarrow> Faculty \<Rightarrow> Room \<Rightarrow> nat \<Rightarrow> nat \<Rightarrow> TimetableEntry" where
  "newEntry host course prog ty selectedFaculty selectedRoom i stamp =
     \<lparr> id_entry = id_course course @ ''-'' @ typeToString ty @ ''-'' @ numberToString i
                   @ ''-'' @ numberToString stamp,
       courseId = id_course course,
       courseName = name_course course,
       courseCode = code course,
       facultyId = id_faculty selectedFaculty,
       facultyName = name_faculty selectedFaculty,
       roomId = id_room selectedRoom,
       roomName = name_room selectedRoom,
       programId = id_program prog,
       programName = name_program prog,
       timeSlot = \<lparr> day = '''', time = '''', duration = 1 \<rparr>,
       studentCount = estimateStudentCount host prog,
       type_entry = ty \<rparr>"

text \<open>
  \<open>now\<close> is the sequence of readings of \<open>Date.now()\<close> during one generation call and
  \<open>k\<close> the number of readings taken before this call of \<open>createCourseEntries\<close>.
  The loop \<open>for (let i = 0; i < hours; i++)\<close> runs for \<open>i = 0, \<dots>, hours - 1\<close>, and
  not at all when \<open>hours\<close> is zero or negative.
\<close>

definition createCourseEntries ::
  "Host \<Rightarrow> Catalog \<Rightarrow> (nat \<Rightarrow> nat) \<Rightarrow> nat \<Rightarrow> Course \<Rightarrow> Program \<Rightarrow> SessionType \<Rightarrow> int
     \<Rightarrow> TimetableEntry list" where
  "createCourseEntries host cat now k course prog ty hours =
     (case selectFaculty host cat course prog of
        None \<Rightarrow> []
      | Some selectedFaculty \<Rightarrow>
          (case selectRoom cat ty of
             None \<Rightarrow> []
           | Some selectedRoom \<Rightarrow>
               map (\<lambda>i. newEntry host course prog ty selectedFaculty selectedRoom i (now (k + i)))
                   [0 ..< nat hours]))"

section \<open>Slot Assigner: \<open>scheduleEntries\<close> and \<open>isSlotAvailable\<close>\<close>

text \<open>\<open>occupiedSlots\<close>: from the key \<open>day-time\<close> to the set of resource tags.\<close>

type_synonym occupied = "string \<rightharpoonup> string set"

definition isSlotAvailable :: "Catalog \<Rightarrow> string \<Rightarrow> string \<Rightarrow> string \<Rightarrow> string \<Rightarrow> bool" where
  "isSlotAvailable cat fid rid d ts =
     (case find (\<lambda>f. id_faculty f = fid) (faculty cat) of
        None \<Rightarrow> False
      | Some f \<Rightarrow>
          (case find (\<lambda>r. id_room r = rid) (rooms cat) of
             None \<Rightarrow> False
           | Some r \<Rightarrow>
               if (case unavailableSlots_faculty f of None \<Rightarrow> False | Some us \<Rightarrow> ts \<in> set us)
               then False
               else if (case unavailableSlots_room r of None \<Rightarrow> False | Some us \<Rightarrow> ts \<in> set us)
               then False
               else True))"

text \<open>The inner loop over \<open>TIME_SLOTS\<close> for one day; the flag is \<open>assigned\<close>.\<close>

fun tryTimeSlots ::
  "Catalog \<Rightarrow> string \<Rightarrow> string list \<Rightarrow> occupied \<Rightarrow> TimetableEntry
     \<Rightarrow> occupied \<times> TimetableEntry \<times> bool" where
  "tryTimeSlots cat d [] occ entry = (occ, entry, False)"
| "tryTimeSlots cat d (ts # tss) occ entry =
     (let slotKey = d @ ''-'' @ ts;
          occ1 = (if occ slotKey = None then occ(slotKey \<mapsto> {}) else occ);
          occupiedResources = the (occ1 slotKey)
      in if ''faculty-'' @ facultyId entry \<notin> occupiedResources \<and>
            ''room-'' @ roomId entry \<notin> occupiedResources \<and>
            isSlotAvailable cat (facultyId entry) (roomId entry) d ts
         then (occ1(slotKey \<mapsto> insert (''room-'' @ roomId entry)
                                  (insert (''faculty-'' @ facultyId entry) occupiedResources)),
               entry\<lparr>timeSlot := \<lparr> day = d, time = ts, duration = 1 \<rparr>\<rparr>,
               True)
         else tryTimeSlots cat d tss occ1 entry)"

text \<open>The outer loop over \<open>WEEKDAYS\<close>, left as soon as \<open>assigned\<close> is set.\<close>

fun tryWeekdays ::
  "Catalog \<Rightarrow> string list \<Rightarrow> occupied \<Rightarrow> TimetableEntry
     \<Rightarrow> occupied \<times> TimetableEntry \<times> bool" where
  "tryWeekdays cat [] occ entry = (occ, entry, False)"
| "tryWeekdays cat (d # ds) occ entry =
     (case tryTimeSlots cat d TIME_SLOTS occ entry of
        (occ1, entry1, assigned) \<Rightarrow>
          if assigned then (occ1, entry1, True) else tryWeekdays cat ds occ1 entry1)"

fun scheduleLoop ::
  "Catalog \<Rightarrow> TimetableEntry list \<Rightarrow> occupied \<Rightarrow> TimetableEntry list \<Rightarrow> TimetableEntry list" where
  "scheduleLoop cat [] occ scheduled = scheduled"
| "scheduleLoop cat (entry # entries) occ scheduled =
     (case tryWeekdays cat WEEKDAYS occ entry of
        (occ1, entry1, assigned) \<Rightarrow> scheduleLoop cat entries occ1 (scheduled @ [entry1]))"

definition scheduleEntries :: "Catalog \<Rightarrow> TimetableEntry list \<Rightarrow> TimetableEntry list" where
  "scheduleEntries cat entries = scheduleLoop cat entries Map.empty []"

section \<open>Conflict Detector: \<open>detectConflicts\<close>\<close>

text \<open>Truthiness of \<open>entry.timeSlot.day && entry.timeSlot.time\<close>.\<close>

definition isScheduled :: "TimetableEntry \<Rightarrow> bool" where
  "isScheduled entry = (day (timeSlot entry) \<noteq> [] \<and> time (timeSlot entry) \<noteq> [])"

definition slotKeyOf :: "TimetableEntry \<Rightarrow> string" where
  "slotKeyOf entry = day (timeSlot entry) @ ''-'' @ time (timeSlot entry)"

definition unscheduledConflict :: "TimetableEntry \<Rightarrow> Constraint" where
  "unscheduledConflict entry =
     \<lparr> type_constraint = faculty_conflict,
       description = ''Course '' @ courseCode entry @ '' ('' @ courseName entry
                     @ '') could not be scheduled'',
       severity = high \<rparr>"

definition facultyConflict :: "string \<Rightarrow> TimetableEntry \<Rightarrow> Constraint" where
  "facultyConflict slot entry =
     \<lparr> type_constraint = faculty_conflict,
       description = ''Faculty '' @ facultyName entry @ '' has multiple classes at '' @ slot,
       severity = high \<rparr>"

definition roomConflict :: "string \<Rightarrow> TimetableEntry \<Rightarrow> Constraint" where
  "roomConflict slot entry =
     \<lparr> type_constraint = room_conflict,
       description = ''Room '' @ roomName entry @ '' has multiple classes at '' @ slot,
       severity = high \<rparr>"

text \<open>
  \<open>slotMap\<close> is a \<open>Map\<close> iterated in insertion order, so it is an association list:
  a new key goes to the end, an entry is pushed at the end of its key's array.
\<close>

fun slotMap_push ::
  "(string \<times> TimetableEntry list) list \<Rightarrow> string \<Rightarrow> TimetableEntry
     \<Rightarrow> (string \<times> TimetableEntry list) list" where
  "slotMap_push [] key entry = [(key, [entry])]"
| "slotMap_push ((k, es) # m) key entry =
     (if k = key then (k, es @ [entry]) # m else (k, es) # slotMap_push m key entry)"

fun groupEntry ::
  "Constraint list \<times> (string \<times> TimetableEntry list) list \<Rightarrow> TimetableEntry
     \<Rightarrow> Constraint list \<times> (string \<times> TimetableEntry list) list" where
  "groupEntry (cfs, slotMap) entry =
     (if isScheduled entry
      then (cfs, slotMap_push slotMap (slotKeyOf entry) entry)
      else (cfs @ [unscheduledConflict entry], slotMap))"

fun checkEntry ::
  "string \<Rightarrow> Constraint list \<times> string set \<times> string set \<Rightarrow> TimetableEntry
     \<Rightarrow> Constraint list \<times> string set \<times> string set" where
  "checkEntry slot (cfs, facultyIds, roomIds) entry =
     (let cfs1 = (if facultyId entry \<in> facultyIds
                        then cfs @ [facultyConflict slot entry] else cfs);
          facultyIds1 = insert (facultyId entry) facultyIds;
          cfs2 = (if roomId entry \<in> roomIds
                        then cfs1 @ [roomConflict slot entry] else cfs1);
          roomIds1 = insert (roomId entry) roomIds
      in (cfs2, facultyIds1, roomIds1))"

fun checkSlot :: "Constraint list \<Rightarrow> string \<times> TimetableEntry list \<Rightarrow> Constraint list" where
  "checkSlot cfs (slot, entries) =
     fst (foldl (checkEntry slot) (cfs, {}, {}) entries)"

definition detectConflicts :: "TimetableEntry list \<Rightarrow> Constraint list" where
  "detectConflicts tt =
     (case foldl groupEntry ([], []) tt of
        (cfs, slotMap) \<Rightarrow> foldl checkSlot cfs slotMap)"

section \<open>The generation call: \<open>generateTimetable\<close>\<close>

definition compareCourses :: "Course \<Rightarrow> Course \<Rightarrow> int" where
  "compareCourses a b =
     (if isElective a \<noteq> isElective b then (if isElective a then 1 else -1)
      else semester a - semester b)"

text \<open>What one iteration of the loop over \<open>sortedCourses\<close> pushes on \<open>timetable\<close>.\<close>

definition expandCourse ::
  "Host \<Rightarrow> Catalog \<Rightarrow> (nat \<Rightarrow> nat) \<Rightarrow> nat \<Rightarrow> Course \<Rightarrow> TimetableEntry list" where
  "expandCourse host cat now k course =
     (case find (\<lambda>p. id_program p = program course) (programs cat) of
        None \<Rightarrow> []
      | Some prog \<Rightarrow>
          (let theoryEntries =
                 (if theoryHours course > 0
                  then createCourseEntries host cat now k course prog Theory (theoryHours course)
                  else []);
               practicalEntries =
                 (if practicalHours course > 0
                  then createCourseEntries host cat now (k + length theoryEntries) course prog
                         Practical (practicalHours course)
                  else [])
           in theoryEntries @ practicalEntries))"

fun expandCourses ::
  "Host \<Rightarrow> Catalog \<Rightarrow> (nat \<Rightarrow> nat) \<Rightarrow> Course list \<Rightarrow> TimetableEntry list \<Rightarrow> TimetableEntry list" where
  "expandCourses host cat now [] tt = tt"
| "expandCourses host cat now (course # cs) tt =
     expandCourses host cat now cs (tt @ expandCourse host cat now (length tt) course)"

definition generateTimetable ::
  "Host \<Rightarrow> Catalog \<Rightarrow> (nat \<Rightarrow> nat) \<Rightarrow> string list \<Rightarrow> GenerationResult" where
  "generateTimetable host cat now selectedPrograms =
     (if programs cat = [] \<or> courses cat = [] \<or> faculty cat = [] \<or> rooms cat = []
      then \<lparr> timetable = [], conflicts = [], success = False,
             message = ''Please ensure you have added programs, courses, faculty, and rooms before generating timetable.'' \<rparr>
      else
        (let relevantCourses = filter (\<lambda>course. program course \<in> set selectedPrograms) (courses cat)
         in if relevantCourses = []
            then \<lparr> timetable = [], conflicts = [], success = False,
                   message = ''No courses found for selected programs.'' \<rparr>
            else
              (let sortedCourses = sort_cmp compareCourses relevantCourses;
                   tt = expandCourses host cat now sortedCourses [];
                   scheduledTimetable = scheduleEntries cat tt;
                   detectedConflicts = detectConflicts scheduledTimetable
               in \<lparr> timetable = scheduledTimetable,
                     conflicts = detectedConflicts,
                     success = (length (filter (\<lambda>c. severity c = high) detectedConflicts) = 0),
                     message =
                       (if length detectedConflicts = 0
                        then ''Timetable generated successfully without conflicts!''
                        else ''Timetable generated with ''
                             @ numberToString (length detectedConflicts)
                             @ '' conflicts. Please review and resolve.'') \<rparr>)))"

section \<open>Notions used to state the properties\<close>

subsection \<open>Conflict Detector\<close>

text \<open>The distinct elements of a list, each at its first occurrence.\<close>

fun firsts :: "'a list \<Rightarrow> 'a list" where
  "firsts [] = []"
| "firsts (x # xs) = x # filter (\<lambda>y. y \<noteq> x) (firsts xs)"

definition cellOf :: "TimetableEntry \<Rightarrow> string \<times> string" where
  "cellOf entry = (day (timeSlot entry), time (timeSlot entry))"

text \<open>
  The conflicts of one group \<open>es\<close> reported under the label \<open>slot\<close>: the session at
  position \<open>i\<close> yields a faculty conflict when its faculty id occurs among the \<open>i\<close>
  sessions before it, and a room conflict when its room id does.
\<close>

definition repeatConflicts :: "string \<Rightarrow> TimetableEntry list \<Rightarrow> Constraint list" where
  "repeatConflicts slot es =
     concat (map (\<lambda>i.
         (if facultyId (es ! i) \<in> set (map facultyId (take i es))
          then [facultyConflict slot (es ! i)] else [])
       @ (if roomId (es ! i) \<in> set (map roomId (take i es))
          then [roomConflict slot (es ! i)] else []))
       [0 ..< length es])"

text \<open>
  The conflicts of a whole list, with the records built by the code's own three
  constructors: those of the unscheduled sessions, then those of the groups by
  (day, time label) in order of first appearance.
\<close>

definition detectByCell :: "TimetableEntry list \<Rightarrow> Constraint list" where
  "detectByCell tt =
     map unscheduledConflict (filter (\<lambda>e. \<not> isScheduled e) tt)
     @ concat (map (\<lambda>(d, t). repeatConflicts (d @ ''-'' @ t)
                               (filter (\<lambda>e. isScheduled e \<and> cellOf e = (d, t)) tt))
                   (firsts (map cellOf (filter isScheduled tt))))"

text \<open>The same with the groups taken by the key string the code builds.\<close>

definition detectByKey :: "TimetableEntry list \<Rightarrow> Constraint list" where
  "detectByKey tt =
     map unscheduledConflict (filter (\<lambda>e. \<not> isScheduled e) tt)
     @ concat (map (\<lambda>k. repeatConflicts k (filter (\<lambda>e. isScheduled e \<and> slotKeyOf e = k) tt))
                   (firsts (map slotKeyOf (filter isScheduled tt))))"

fun seenConflicts ::
  "string \<Rightarrow> string set \<Rightarrow> string set \<Rightarrow> TimetableEntry list \<Rightarrow> Constraint list" where
  "seenConflicts slot F R [] = []"
| "seenConflicts slot F R (e # es) =
     (if facultyId e \<in> F then [facultyConflict slot e] else [])
   @ (if roomId e \<in> R then [roomConflict slot e] else [])
   @ seenConflicts slot (insert (facultyId e) F) (insert (roomId e) R) es"

text \<open>
  The detector as section 4.3 of the specification words it, every record written out.
  A slot is set when day and time label are both non-empty. First, one high-severity
  conflict citing course code and name for each session whose slot is unset. Then the
  sessions with a set slot are grouped by (day, time label), groups in order of first
  appearance, each group in original order: the session at position \<open>i\<close> of its
  group yields a high-severity faculty conflict when its faculty id occurs among the
  \<open>i\<close> sessions before it, and a high-severity room conflict when its room id does.
\<close>

definition slotSet :: "TimetableEntry \<Rightarrow> bool" where
  "slotSet e = (day (timeSlot e) \<noteq> [] \<and> time (timeSlot e) \<noteq> [])"

definition groupRecords :: "string \<Rightarrow> string \<Rightarrow> TimetableEntry list \<Rightarrow> Constraint list" where
  "groupRecords d t es =
     concat (map (\<lambda>i.
         (if facultyId (es ! i) \<in> set (map facultyId (take i es))
          then [\<lparr> type_constraint = faculty_conflict,
                   description = ''Faculty '' @ facultyName (es ! i)
                                 @ '' has multiple classes at '' @ d @ ''-'' @ t,
                   severity = high \<rparr>]
          else [])
       @ (if roomId (es ! i) \<in> set (map roomId (take i es))
          then [\<lparr> type_constraint = room_conflict,
                   description = ''Room '' @ roomName (es ! i)
                                 @ '' has multiple classes at '' @ d @ ''-'' @ t,
                   severity = high \<rparr>]
          else []))
       [0 ..< length es])"

definition detectBySpec :: "TimetableEntry list \<Rightarrow> Constraint list" where
  "detectBySpec tt =
     map (\<lambda>e. \<lparr> type_constraint = faculty_conflict,
                  description = ''Course '' @ courseCode e @ '' ('' @ courseName e
                                @ '') could not be scheduled'',
                  severity = high \<rparr>)
         (filter (\<lambda>e. \<not> slotSet e) tt)
     @ concat (map (\<lambda>(d, t). groupRecords d t
                               (filter (\<lambda>e. slotSet e
                                   \<and> day (timeSlot e) = d \<and> time (timeSlot e) = t) tt))
                   (firsts (map (\<lambda>e. (day (timeSlot e), time (timeSlot e)))
                                (filter slotSet tt))))"

definition highConflicts :: "Constraint list \<Rightarrow> Constraint list" where
  "highConflicts cs = filter (\<lambda>c. severity c = high) cs"

subsection \<open>Slot Assigner\<close>

text \<open>The 48 cells of the weekly grid in scan order: days outermost, time labels within.\<close>

definition cellsOf :: "string list \<Rightarrow> string list \<Rightarrow> (string \<times> string) list" where
  "cellsOf ds tss = concat (map (\<lambda>d. map (\<lambda>ts. (d, ts)) tss) ds)"

definition grid :: "(string \<times> string) list" where
  "grid = cellsOf WEEKDAYS TIME_SLOTS"

text \<open>
  A cell is taken for a session when a scheduled session among the earlier ones sits in
  that cell and has the same faculty id or the same room id.
\<close>

definition cellTaken :: "TimetableEntry list \<Rightarrow> TimetableEntry \<Rightarrow> string \<Rightarrow> string \<Rightarrow> bool" where
  "cellTaken earlier entry d ts =
     (\<exists>e' \<in> set earlier. isScheduled e' \<and> cellOf e' = (d, ts) \<and>
        (facultyId e' = facultyId entry \<or> roomId e' = roomId entry))"




text \<open>A session is bound to the catalog when its faculty id and its room id occur there.\<close>

definition boundTo :: "Catalog \<Rightarrow> TimetableEntry \<Rightarrow> bool" where
  "boundTo cat entry =
     (facultyId entry \<in> set (map id_faculty (faculty cat)) \<and>
      roomId entry \<in> set (map id_room (rooms cat)))"

text \<open>First fit against the code's own availability test, and the pass over a list.\<close>

definition slotOpen :: "Catalog \<Rightarrow> TimetableEntry list \<Rightarrow> TimetableEntry \<Rightarrow> string \<times> string \<Rightarrow> bool" where
  "slotOpen cat earlier entry c =
     (\<not> cellTaken earlier entry (fst c) (snd c) \<and>
      isSlotAvailable cat (facultyId entry) (roomId entry) (fst c) (snd c))"

definition placeEntry :: "Catalog \<Rightarrow> TimetableEntry list \<Rightarrow> TimetableEntry \<Rightarrow> TimetableEntry" where
  "placeEntry cat earlier entry =
     (case find (slotOpen cat earlier entry) grid of
        None \<Rightarrow> entry
      | Some c \<Rightarrow> entry\<lparr>timeSlot := \<lparr> day = fst c, time = snd c, duration = 1 \<rparr>\<rparr>)"

fun placeAll :: "Catalog \<Rightarrow> TimetableEntry list \<Rightarrow> TimetableEntry list \<Rightarrow> TimetableEntry list" where
  "placeAll cat acc [] = acc"
| "placeAll cat acc (e # es) = placeAll cat (acc @ [placeEntry cat acc e]) es"

text \<open>What the occupancy map records, read through \<open>has\<close> and \<open>get\<close>.\<close>

definition occ_has :: "occupied \<Rightarrow> string \<Rightarrow> string \<Rightarrow> bool" where
  "occ_has occ k tag = (case occ k of None \<Rightarrow> False | Some s \<Rightarrow> tag \<in> s)"

definition keyOpen :: "Catalog \<Rightarrow> (string \<Rightarrow> string \<Rightarrow> bool) \<Rightarrow> TimetableEntry \<Rightarrow> string \<times> string \<Rightarrow> bool" where
  "keyOpen cat has entry c =
     (\<not> has (fst c @ ''-'' @ snd c) (''faculty-'' @ facultyId entry) \<and>
      \<not> has (fst c @ ''-'' @ snd c) (''room-'' @ roomId entry) \<and>
      isSlotAvailable cat (facultyId entry) (roomId entry) (fst c) (snd c))"

definition occupies :: "TimetableEntry \<Rightarrow> string \<Rightarrow> string \<Rightarrow> bool" where
  "occupies e k tag =
     (isScheduled e \<and> slotKeyOf e = k \<and>
      (tag = ''faculty-'' @ facultyId e \<or> tag = ''room-'' @ roomId e))"

subsection \<open>Session Expander and generation call\<close>

text \<open>The categories section 4.1 of the specification allows for each kind of session.\<close>

definition kindAppropriate :: "SessionType \<Rightarrow> Room \<Rightarrow> bool" where
  "kindAppropriate ty room =
     (case ty of
        Theory \<Rightarrow> type_room room \<in> {''Classroom'', ''Seminar Hall''}
      | Practical \<Rightarrow> type_room room \<in> {''Laboratory'', ''Computer Lab''})"

text \<open>The result record \<open>generateTimetable\<close> builds once its loop has filled \<open>timetable\<close>.\<close>

definition resultOf :: "Catalog \<Rightarrow> TimetableEntry list \<Rightarrow> GenerationResult" where
  "resultOf cat tt =
     \<lparr> timetable = scheduleEntries cat tt,
       conflicts = detectConflicts (scheduleEntries cat tt),
       success = (length (filter (\<lambda>c. severity c = high)
                    (detectConflicts (scheduleEntries cat tt))) = 0),
       message =
         (if length (detectConflicts (scheduleEntries cat tt)) = 0
          then ''Timetable generated successfully without conflicts!''
          else ''Timetable generated with ''
               @ numberToString (length (detectConflicts (scheduleEntries cat tt)))
               @ '' conflicts. Please review and resolve.'') \<rparr>"

definition hasProgram :: "Catalog \<Rightarrow> Course \<Rightarrow> bool" where
  "hasProgram cat course = (program course \<in> set (map id_program (programs cat)))"

definition withoutId :: "TimetableEntry \<Rightarrow> TimetableEntry" where
  "withoutId entry = entry\<lparr>id_entry := []\<rparr>"

definition courseKey :: "Course \<Rightarrow> bool \<times> int" where
  "courseKey course = (isElective course, semester course)"

section \<open>A small catalog\<close>

definition demoProgram :: Program where
  "demoProgram = \<lparr> id_program = ''P1'', name_program = ''Bachelor of Education'',
                    type_program = ''B.Ed'' \<rparr>"

definition demoCourse :: Course where
  "demoCourse = \<lparr> id_course = ''C1'', name_course = ''Mathematics'', code = ''M101'',
                   program = ''P1'', isElective = False, semester = 1, theoryHours = 2,
                   practicalHours = 1, description_course = ''Numbers'' \<rparr>"

definition orphanCourse :: Course where
  "orphanCourse = demoCourse\<lparr> id_course := ''C2'', program := ''P9'' \<rparr>"

definition demoFaculty :: Faculty where
  "demoFaculty = \<lparr> id_faculty = ''F1'', name_faculty = ''Ann'', canTeachPrograms = [''P1''],
                    expertise = [''math''], unavailableSlots_faculty = Some [''09:00-10:00''] \<rparr>"

definition demoRoom :: Room where
  "demoRoom = \<lparr> id_room = ''R1'', name_room = ''Room 1'', type_room = ''Classroom'',
                 unavailableSlots_room = None \<rparr>"

definition demoLab :: Room where
  "demoLab = \<lparr> id_room = ''R2'', name_room = ''Lab 1'', type_room = ''Laboratory'',
                unavailableSlots_room = Some [] \<rparr>"

definition demoCatalog :: Catalog where
  "demoCatalog = \<lparr> programs = [demoProgram], courses = [demoCourse],
                    faculty = [demoFaculty], rooms = [demoRoom, demoLab] \<rparr>"

text \<open>An engine for the sample runs: lower-casing of the letters A to Z.\<close>

definition asciiLower :: "string \<Rightarrow> string" where
  "asciiLower s =
     map (\<lambda>c. let n = (of_char c :: nat) in if 65 \<le> n \<and> n \<le> 90 then char_of (n + 32) else c) s"

definition objectPrototypeNames :: "string list" where
  "objectPrototypeNames =
     [''constructor'', ''hasOwnProperty'', ''isPrototypeOf'', ''propertyIsEnumerable'',
      ''toLocaleString'', ''toString'', ''valueOf'', ''__proto__'', ''__defineGetter__'',
      ''__defineSetter__'', ''__lookupGetter__'', ''__lookupSetter__'']"

definition isObjectPrototypeName :: "string \<Rightarrow> bool" where
  "isObjectPrototypeName name = (name \<in> set objectPrototypeNames)"

definition demoHost :: Host where
  "demoHost = \<lparr> toLowerCase = asciiLower, inheritsProperty = isObjectPrototypeName \<rparr>"

definition emptyCatalog :: Catalog where
  "emptyCatalog = \<lparr> programs = [], courses = [], faculty = [], rooms = [] \<rparr>"

definition demoClock :: "nat \<Rightarrow> nat" where
  "demoClock n = 1700000000000"

text \<open>A clock that advances by one millisecond between two readings.\<close>

definition tickingClock :: "nat \<Rightarrow> nat" where
  "tickingClock n = 1700000000000 + n"

definition demoEntry :: "nat \<Rightarrow> string \<Rightarrow> string \<Rightarrow> TimetableEntry" where
  "demoEntry i d ts =
     (newEntry demoHost demoCourse demoProgram Theory demoFaculty demoRoom i 0)
       \<lparr>timeSlot := \<lparr> day = d, time = ts, duration = 1 \<rparr>\<rparr>"

definition demoExpanded :: "TimetableEntry list" where
  "demoExpanded =
     [newEntry demoHost demoCourse demoProgram Theory demoFaculty demoRoom 0 1700000000000,
      newEntry demoHost demoCourse demoProgram Theory demoFaculty demoRoom 1 1700000000000,
      newEntry demoHost demoCourse demoProgram Practical demoFaculty demoLab 0 1700000000000]"

definition demoScheduled :: "TimetableEntry list" where
  "demoScheduled =
     [(newEntry demoHost demoCourse demoProgram Theory demoFaculty demoRoom 0 1700000000000)
        \<lparr>timeSlot := \<lparr>day = ''Monday'', time = ''10:00-11:00'', duration = 1\<rparr>\<rparr>,
      (newEntry demoHost demoCourse demoProgram Theory demoFaculty demoRoom 1 1700000000000)
        \<lparr>timeSlot := \<lparr>day = ''Monday'', time = ''11:00-12:00'', duration = 1\<rparr>\<rparr>,
      (newEntry demoHost demoCourse demoProgram Practical demoFaculty demoLab 0 1700000000000)
        \<lparr>timeSlot := \<lparr>day = ''Monday'', time = ''12:00-13:00'', duration = 1\<rparr>\<rparr>]"

definition demoSessions :: "TimetableEntry list" where
  "demoSessions = [demoEntry 0 ''Monday'' ''10:00-11:00'', demoEntry 1 [] [],
                   demoEntry 2 ''Monday'' ''10:00-11:00'']"

section \<open>The detector computes the grouped conflict list\<close>

lemma set_firsts [simp]: "set (firsts xs) = set xs"
  by (induction xs) auto

lemma distinct_firsts [simp]: "distinct (firsts xs)"
  by (induction xs) auto

lemma firsts_filter: "firsts (filter P xs) = filter P (firsts xs)"
  by (induction xs) (auto simp: filter_filter conj_commute intro: filter_cong)

lemma firsts_snoc: "firsts (xs @ [x]) = (if x \<in> set xs then firsts xs else firsts xs @ [x])"
  by (induction xs) auto

lemma firsts_map_inj: "inj_on f (set xs) \<Longrightarrow> firsts (map f xs) = map f (firsts xs)"
proof (induction xs)
  case Nil
  then show ?case by simp
next
  case (Cons x xs)
  then have ih: "firsts (map f xs) = map f (firsts xs)" by simp
  have "filter (\<lambda>y. y \<noteq> f x) (map f (firsts xs)) = map f (filter (\<lambda>y. y \<noteq> x) (firsts xs))"
    using Cons.prems by (auto simp: filter_map comp_def inj_on_def intro!: arg_cong[where f="map f"] filter_cong)
  with ih show ?case by simp
qed

lemma foldl_checkEntry:
  "foldl (checkEntry slot) (cfs, F, R) es =
     (cfs @ seenConflicts slot F R es, F \<union> set (map facultyId es), R \<union> set (map roomId es))"
  by (induction es arbitrary: cfs F R) (simp_all add: Let_def)

lemma seenConflicts_index:
  "seenConflicts slot F R es =
     concat (map (\<lambda>i.
         (if facultyId (es ! i) \<in> F \<union> set (map facultyId (take i es))
          then [facultyConflict slot (es ! i)] else [])
       @ (if roomId (es ! i) \<in> R \<union> set (map roomId (take i es))
          then [roomConflict slot (es ! i)] else []))
       [0 ..< length es])"
proof (induction es arbitrary: F R)
  case Nil
  then show ?case by simp
next
  case (Cons e es)
  have upt: "[0 ..< length (e # es)] = 0 # map Suc [0 ..< length es]"
    by (simp add: upt_conv_Cons map_Suc_upt del: upt_Suc)
  show ?case
    unfolding upt by (simp add: Cons.IH comp_def disj_ac cong: if_cong)
qed

lemma seenConflicts_empty: "seenConflicts slot {} {} es = repeatConflicts slot es"
  by (simp add: seenConflicts_index repeatConflicts_def)

lemma checkSlot_eq: "checkSlot cfs (slot, es) = cfs @ repeatConflicts slot es"
  by (simp add: foldl_checkEntry seenConflicts_empty)

lemma foldl_checkSlot:
  "foldl checkSlot cfs m = cfs @ concat (map (\<lambda>(k, es). repeatConflicts k es) m)"
proof (induction m arbitrary: cfs)
  case Nil
  then show ?case by simp
next
  case (Cons p m)
  obtain k es where p: "p = (k, es)" by (cases p)
  show ?case by (simp add: p checkSlot_eq Cons.IH del: checkSlot.simps)
qed

lemma slotMap_push_new:
  "k0 \<notin> set ks \<Longrightarrow>
   slotMap_push (map (\<lambda>k. (k, G k)) ks) k0 e = map (\<lambda>k. (k, G k)) ks @ [(k0, [e])]"
  by (induction ks) auto

lemma slotMap_push_old:
  "k0 \<in> set ks \<Longrightarrow> distinct ks \<Longrightarrow>
   slotMap_push (map (\<lambda>k. (k, G k)) ks) k0 e =
     map (\<lambda>k. (k, if k = k0 then G k @ [e] else G k)) ks"
  by (induction ks) auto

lemma foldl_groupEntry:
  "foldl groupEntry ([], []) tt =
     (map unscheduledConflict (filter (\<lambda>e. \<not> isScheduled e) tt),
      map (\<lambda>k. (k, filter (\<lambda>e. isScheduled e \<and> slotKeyOf e = k) tt))
          (firsts (map slotKeyOf (filter isScheduled tt))))"
proof (induction tt rule: rev_induct)
  case Nil
  then show ?case by simp
next
  case (snoc e tt)
  let ?ks = "firsts (map slotKeyOf (filter isScheduled tt))"
  let ?G = "\<lambda>k. filter (\<lambda>e. isScheduled e \<and> slotKeyOf e = k) tt"
  show ?case
  proof (cases "isScheduled e")
    case False
    then show ?thesis by (simp add: snoc.IH)
  next
    case sched: True
    show ?thesis
    proof (cases "slotKeyOf e \<in> set ?ks")
      case True
      then have "slotMap_push (map (\<lambda>k. (k, ?G k)) ?ks) (slotKeyOf e) e =
          map (\<lambda>k. (k, if k = slotKeyOf e then ?G k @ [e] else ?G k)) ?ks"
        by (intro slotMap_push_old) simp_all
      with True sched show ?thesis
        by (auto simp: snoc.IH firsts_snoc)
    next
      case False
      then have "slotMap_push (map (\<lambda>k. (k, ?G k)) ?ks) (slotKeyOf e) e =
          map (\<lambda>k. (k, ?G k)) ?ks @ [(slotKeyOf e, [e])]"
        by (intro slotMap_push_new)
      moreover have "?G (slotKeyOf e) = []"
      proof -
        have "\<not> (isScheduled x \<and> slotKeyOf x = slotKeyOf e)" if "x \<in> set tt" for x
        proof
          assume a: "isScheduled x \<and> slotKeyOf x = slotKeyOf e"
          with that have "slotKeyOf e \<in> slotKeyOf ` set (filter isScheduled tt)"
            by (intro image_eqI[of _ _ x]) simp_all
          with False show False by simp
        qed
        then show ?thesis by (simp add: filter_empty_conv)
      qed
      ultimately show ?thesis using False sched
        by (auto simp: snoc.IH firsts_snoc)
    qed
  qed
qed

lemma detectConflicts_byKey: "detectConflicts tt = detectByKey tt"
  by (simp add: detectConflicts_def foldl_groupEntry foldl_checkSlot detectByKey_def comp_def)
lemma split_at_first:
  "c \<notin> set d \<Longrightarrow> c \<notin> set d' \<Longrightarrow> d @ c # t = d' @ c # t' \<Longrightarrow> d = d' \<and> t = t'"
proof (induction d arbitrary: d')
  case Nil
  then show ?case by (cases d') auto
next
  case (Cons a d)
  then show ?case by (cases d') auto
qed

lemma slotKey_inject:
  "CHR ''-'' \<notin> set d \<Longrightarrow> CHR ''-'' \<notin> set d' \<Longrightarrow>
   (d @ CHR ''-'' # t = d' @ CHR ''-'' # t') = (d = d' \<and> t = t')"
  using split_at_first[of "CHR ''-''" d d' t t'] by auto

lemma slotKeyOf_eq_iff:
  "CHR ''-'' \<notin> set (day (timeSlot e)) \<Longrightarrow> CHR ''-'' \<notin> set d \<Longrightarrow>
   (slotKeyOf e = d @ CHR ''-'' # t) = (cellOf e = (d, t))"
  by (simp add: slotKeyOf_def cellOf_def slotKey_inject)

lemma detectByKey_byCell:
  assumes hy: "\<forall>e \<in> set tt. isScheduled e \<longrightarrow> CHR ''-'' \<notin> set (day (timeSlot e))"
  shows "detectByKey tt = detectByCell tt"
proof -
  let ?S = "filter isScheduled tt"
  let ?key = "\<lambda>(d, t). d @ ''-'' @ t"
  have days: "CHR ''-'' \<notin> set d" if "(d, t) \<in> set (map cellOf ?S)" for d t
    using that hy by (auto simp: cellOf_def)
  have inj: "inj_on ?key (set (map cellOf ?S))"
  proof (rule inj_onI)
    fix x y assume x: "x \<in> set (map cellOf ?S)" and y: "y \<in> set (map cellOf ?S)"
      and eq: "?key x = ?key y"
    obtain d t where xd: "x = (d, t)" by (cases x)
    obtain d' t' where yd: "y = (d', t')" by (cases y)
    from x y xd yd have "CHR ''-'' \<notin> set d" "CHR ''-'' \<notin> set d'"
      using days by blast+
    with eq xd yd show "x = y" by (simp add: slotKey_inject)
  qed
  have keys: "map slotKeyOf ?S = map ?key (map cellOf ?S)"
    by (simp add: slotKeyOf_def cellOf_def)
  have fk: "firsts (map slotKeyOf ?S) = map ?key (firsts (map cellOf ?S))"
    unfolding keys by (rule firsts_map_inj[OF inj])
  have grp: "filter (\<lambda>e. isScheduled e \<and> slotKeyOf e = d @ ''-'' @ t) tt
           = filter (\<lambda>e. isScheduled e \<and> cellOf e = (d, t)) tt"
    if "(d, t) \<in> set (firsts (map cellOf ?S))" for d t
  proof (rule filter_cong[OF refl])
    fix e assume "e \<in> set tt"
    from that have "CHR ''-'' \<notin> set d" using days by simp
    with hy \<open>e \<in> set tt\<close>
    show "(isScheduled e \<and> slotKeyOf e = d @ ''-'' @ t) = (isScheduled e \<and> cellOf e = (d, t))"
      by (auto simp: slotKeyOf_eq_iff)
  qed
  have "map (\<lambda>k. repeatConflicts k (filter (\<lambda>e. isScheduled e \<and> slotKeyOf e = k) tt))
            (map ?key (firsts (map cellOf ?S)))
      = map (\<lambda>(d, t). repeatConflicts (d @ ''-'' @ t)
                        (filter (\<lambda>e. isScheduled e \<and> cellOf e = (d, t)) tt))
            (firsts (map cellOf ?S))"
  proof (simp only: map_map, rule map_cong[OF refl])
    fix x assume x: "x \<in> set (firsts (map cellOf ?S))"
    obtain d t where xd: "x = (d, t)" by (cases x)
    from grp[of d t] x xd
    show "((\<lambda>k. repeatConflicts k (filter (\<lambda>e. isScheduled e \<and> slotKeyOf e = k) tt)) \<circ> ?key) x
        = (case x of (d, t) \<Rightarrow> repeatConflicts (d @ ''-'' @ t)
                        (filter (\<lambda>e. isScheduled e \<and> cellOf e = (d, t)) tt))"
      by simp
  qed
  then show ?thesis
    unfolding detectByKey_def detectByCell_def fk by (simp only:)
qed

lemma set_repeatConflicts:
  "c \<in> set (repeatConflicts k es) \<Longrightarrow>
   (\<exists>e \<in> set es. c = facultyConflict k e \<or> c = roomConflict k e)"
  by (auto simp: repeatConflicts_def split: if_splits)

lemma set_detectByKey:
  "c \<in> set (detectByKey tt) \<Longrightarrow>
   (\<exists>e \<in> set tt. c = unscheduledConflict e \<or>
       c = facultyConflict (slotKeyOf e) e \<or> c = roomConflict (slotKeyOf e) e)"
proof -
  assume "c \<in> set (detectByKey tt)"
  then consider (u) "c \<in> unscheduledConflict ` set (filter (\<lambda>e. \<not> isScheduled e) tt)"
    | (r) k where "c \<in> set (repeatConflicts k (filter (\<lambda>e. isScheduled e \<and> slotKeyOf e = k) tt))"
    by (auto simp: detectByKey_def)
  then show ?thesis
  proof cases
    case u
    then show ?thesis by auto
  next
    case r
    from set_repeatConflicts[OF r] show ?thesis by auto
  qed
qed

section \<open>Properties of the Conflict Detector\<close>

lemma slotSet_isScheduled: "slotSet = isScheduled"
  by (simp add: slotSet_def isScheduled_def fun_eq_iff)

lemma groupRecords_repeatConflicts: "groupRecords d t es = repeatConflicts (d @ ''-'' @ t) es"
  by (simp add: groupRecords_def repeatConflicts_def facultyConflict_def roomConflict_def
      cong: if_cong)

lemma detectBySpec_byCell: "detectBySpec tt = detectByCell tt"
proof -
  have c: "(\<lambda>e. (day (timeSlot e), time (timeSlot e))) = cellOf"
    by (simp add: cellOf_def fun_eq_iff)
  have u: "(\<lambda>e. \<lparr> type_constraint = faculty_conflict,
                  description = ''Course '' @ courseCode e @ '' ('' @ courseName e
                                @ '') could not be scheduled'',
                  severity = high \<rparr>) = unscheduledConflict"
    by (simp add: unscheduledConflict_def fun_eq_iff)
  have g: "(\<lambda>e. isScheduled e \<and> day (timeSlot e) = d \<and> time (timeSlot e) = t)
         = (\<lambda>e. isScheduled e \<and> cellOf e = (d, t))" for d t
    by (simp add: cellOf_def fun_eq_iff)
  show ?thesis
    unfolding detectBySpec_def detectByCell_def slotSet_isScheduled c u g
      groupRecords_repeatConflicts ..
qed

lemma demoSessions_hyphen_free:
  "\<forall>e \<in> set demoSessions. slotSet e \<longrightarrow> CHR ''-'' \<notin> set (day (timeSlot e))"
  by (simp add: demoSessions_def demoEntry_def slotSet_def)

text \<open>
  Claim C6. For every session list in which the day of each session with a set slot
  contains no hyphen (as the six weekday names of the grid do, so that the key
  \<open>day-time\<close> the code groups by determines the pair), the detector returns: one
  high-severity conflict citing course code and name per session with an unset slot, in
  list order; then, for each (day, time label) group in order of first appearance and
  within the group in original order, one high-severity faculty conflict for every
  session whose faculty id occurs earlier in the group and one high-severity room
  conflict for every session whose room id does. Nothing is merged.
\<close>

theorem detectConflicts_by_cell:
  assumes "\<forall>e \<in> set tt. slotSet e \<longrightarrow> CHR ''-'' \<notin> set (day (timeSlot e))"
  shows "detectConflicts tt = detectBySpec tt"
proof -
  from assms have "\<forall>e \<in> set tt. isScheduled e \<longrightarrow> CHR ''-'' \<notin> set (day (timeSlot e))"
    by (simp add: slotSet_isScheduled)
  then show ?thesis
    by (simp add: detectConflicts_byKey detectByKey_byCell detectBySpec_byCell)
qed

theorem detectConflicts_by_cell_witness:
  "detectConflicts demoSessions =
     [\<lparr> type_constraint = faculty_conflict,
        description = ''Course M101 (Mathematics) could not be scheduled'',
        severity = high \<rparr>,
      \<lparr> type_constraint = faculty_conflict,
        description = ''Faculty Ann has multiple classes at Monday-10:00-11:00'',
        severity = high \<rparr>,
      \<lparr> type_constraint = room_conflict,
        description = ''Room Room 1 has multiple classes at Monday-10:00-11:00'',
        severity = high \<rparr>]"
proof -
  have "detectBySpec demoSessions =
     [\<lparr> type_constraint = faculty_conflict,
        description = ''Course M101 (Mathematics) could not be scheduled'',
        severity = high \<rparr>,
      \<lparr> type_constraint = faculty_conflict,
        description = ''Faculty Ann has multiple classes at Monday-10:00-11:00'',
        severity = high \<rparr>,
      \<lparr> type_constraint = room_conflict,
        description = ''Room Room 1 has multiple classes at Monday-10:00-11:00'',
        severity = high \<rparr>]"
    by (simp add: detectBySpec_def demoSessions_def demoEntry_def slotSet_def
        groupRecords_def newEntry_def upt_conv_Cons demoCourse_def demoFaculty_def
        demoRoom_def)
  with detectConflicts_by_cell[OF demoSessions_hyphen_free]
  show ?thesis by simp
qed

text \<open>
  Claim C10. Every conflict record the detector returns has severity high and kind
  faculty conflict or room conflict, so the three other kinds and the two other
  severities never occur; and every session with an unset slot is reported by a record
  of kind faculty conflict.
\<close>

theorem detectConflicts_kinds:
  "(\<forall>c \<in> set (detectConflicts tt).
      severity c = high \<and>
      (type_constraint c = faculty_conflict \<or> type_constraint c = room_conflict)) \<and>
   (\<forall>e \<in> set tt. \<not> isScheduled e \<longrightarrow>
      unscheduledConflict e \<in> set (detectConflicts tt) \<and>
      type_constraint (unscheduledConflict e) = faculty_conflict)"
proof (intro conjI ballI impI)
  fix c assume "c \<in> set (detectConflicts tt)"
  then obtain e where "c = unscheduledConflict e \<or>
       c = facultyConflict (slotKeyOf e) e \<or> c = roomConflict (slotKeyOf e) e"
    using set_detectByKey by (auto simp: detectConflicts_byKey)
  then show "severity c = high"
    and "type_constraint c = faculty_conflict \<or> type_constraint c = room_conflict"
    by (auto simp: unscheduledConflict_def facultyConflict_def roomConflict_def)
next
  fix e assume "e \<in> set tt" "\<not> isScheduled e"
  then show "unscheduledConflict e \<in> set (detectConflicts tt)"
    by (simp add: detectConflicts_byKey detectByKey_def)
next
  fix e show "type_constraint (unscheduledConflict e) = faculty_conflict"
    by (simp add: unscheduledConflict_def)
qed

theorem detectConflicts_kinds_witness:
  "unscheduledConflict (demoEntry 1 [] []) \<in> set (detectConflicts demoSessions) \<and>
   type_constraint (unscheduledConflict (demoEntry 1 [] [])) = faculty_conflict \<and>
   severity (unscheduledConflict (demoEntry 1 [] [])) = high"
proof -
  have m: "demoEntry 1 [] [] \<in> set demoSessions"
    by (simp add: demoSessions_def)
  have u: "\<not> isScheduled (demoEntry 1 [] [])"
    by (simp add: demoEntry_def isScheduled_def)
  from detectConflicts_kinds[of demoSessions] m u
  have "unscheduledConflict (demoEntry 1 [] []) \<in> set (detectConflicts demoSessions)"
    and "type_constraint (unscheduledConflict (demoEntry 1 [] [])) = faculty_conflict"
    by blast+
  moreover from this(1) detectConflicts_kinds[of demoSessions]
  have "severity (unscheduledConflict (demoEntry 1 [] [])) = high"
    by blast
  ultimately show ?thesis by simp
qed

section \<open>Properties of the generation call\<close>

text \<open>
  Claim C5. If one of the four catalog collections is empty, or no course belongs to a
  selected program, the call returns a result record (the model has no other outcome)
  with an empty session list, an empty conflict list, the success flag false and a
  guidance message: the first message when a collection is empty, the second otherwise.
\<close>

theorem generateTimetable_insufficient_input:
  assumes "programs cat = [] \<or> courses cat = [] \<or> faculty cat = [] \<or> rooms cat = [] \<or>
           (\<forall>c \<in> set (courses cat). program c \<notin> set selectedPrograms)"
  shows "generateTimetable host cat now selectedPrograms =
           \<lparr> timetable = [], conflicts = [], success = False,
             message =
               (if programs cat = [] \<or> courses cat = [] \<or> faculty cat = [] \<or> rooms cat = []
                then ''Please ensure you have added programs, courses, faculty, and rooms before generating timetable.''
                else ''No courses found for selected programs.'') \<rparr>"
proof -
  have "filter (\<lambda>c. program c \<in> set selectedPrograms) (courses cat) = []"
    if "\<forall>c \<in> set (courses cat). program c \<notin> set selectedPrograms"
    using that by (simp add: filter_empty_conv)
  with assms show ?thesis
    by (auto simp: generateTimetable_def Let_def)
qed

theorem generateTimetable_insufficient_input_witness:
  "generateTimetable demoHost emptyCatalog demoClock [''P1''] =
     \<lparr> timetable = [], conflicts = [], success = False,
       message = ''Please ensure you have added programs, courses, faculty, and rooms before generating timetable.'' \<rparr>
   \<and> generateTimetable demoHost demoCatalog demoClock [''P7''] =
     \<lparr> timetable = [], conflicts = [], success = False,
       message = ''No courses found for selected programs.'' \<rparr>"
proof -
  have a: "programs emptyCatalog = [] \<or> courses emptyCatalog = [] \<or> faculty emptyCatalog = []
           \<or> rooms emptyCatalog = [] \<or> (\<forall>c \<in> set (courses emptyCatalog). program c \<notin> set [''P1''])"
    by (simp add: emptyCatalog_def)
  have b: "\<forall>c \<in> set (courses demoCatalog). program c \<notin> set [''P7'']"
    by (simp add: demoCatalog_def demoCourse_def)
  then have b': "programs demoCatalog = [] \<or> courses demoCatalog = [] \<or> faculty demoCatalog = []
           \<or> rooms demoCatalog = [] \<or> (\<forall>c \<in> set (courses demoCatalog). program c \<notin> set [''P7''])"
    by blast
  have e: "programs emptyCatalog = []" by (simp add: emptyCatalog_def)
  have d: "\<not> (programs demoCatalog = [] \<or> courses demoCatalog = [] \<or> faculty demoCatalog = []
           \<or> rooms demoCatalog = [])" by (simp add: demoCatalog_def)
  from generateTimetable_insufficient_input[OF a, where host = demoHost and now = demoClock]
       generateTimetable_insufficient_input[OF b', where host = demoHost and now = demoClock] e d
  show ?thesis by simp
qed

text \<open>
  Claim C4, as stated, fails on an empty catalog: the conflict list is empty, so it
  holds no conflict of high severity, and yet the success flag is false.
\<close>

theorem success_iff_no_high_conflict_counterexample:
  "\<not> (success (generateTimetable demoHost emptyCatalog demoClock []) =
        (highConflicts (conflicts (generateTimetable demoHost emptyCatalog demoClock [])) = []))"
  by (simp add: generateTimetable_def emptyCatalog_def highConflicts_def)

text \<open>
  Claim C4, amended. The success flag is true if and only if none of the four catalog
  collections is empty, some course belongs to a selected program, and the conflict list
  of the result holds no conflict of high severity.
\<close>

theorem success_iff_generated_without_high_conflict:
  "success (generateTimetable host cat now selectedPrograms) =
     (programs cat \<noteq> [] \<and> courses cat \<noteq> [] \<and> faculty cat \<noteq> [] \<and> rooms cat \<noteq> [] \<and>
      filter (\<lambda>c. program c \<in> set selectedPrograms) (courses cat) \<noteq> [] \<and>
      highConflicts (conflicts (generateTimetable host cat now selectedPrograms)) = [])"
  by (simp add: generateTimetable_def Let_def highConflicts_def)

section \<open>Properties of the Session Expander\<close>

lemma firstOr_Some:
  "firstOr xs ys = Some x \<Longrightarrow> (xs \<noteq> [] \<and> x = hd xs) \<or> (xs = [] \<and> ys \<noteq> [] \<and> x = hd ys)"
  by (auto simp: firstOr_def split: list.splits)

lemma firstOr_None: "(firstOr xs ys = None) = (xs = [] \<and> ys = [])"
  by (auto simp: firstOr_def split: list.splits)

lemma selectFaculty_None: "(selectFaculty host cat course prog = None) = (faculty cat = [])"
  by (auto simp: selectFaculty_def Let_def firstOr_None filter_empty_conv)

lemma selectFaculty_in: "selectFaculty host cat course prog = Some f \<Longrightarrow> f \<in> set (faculty cat)"
proof -
  assume a: "selectFaculty host cat course prog = Some f"
  have sub: "xs \<noteq> [] \<Longrightarrow> set xs \<subseteq> A \<Longrightarrow> hd xs \<in> A" for xs :: "Faculty list" and A
    by (cases xs) auto
  from a show ?thesis
    unfolding selectFaculty_def Let_def
    by (auto dest!: firstOr_Some split: if_splits intro!: sub)
qed

lemma selectRoom_None: "(selectRoom cat ty = None) = (rooms cat = [])"
  by (auto simp: selectRoom_def firstOr_None filter_empty_conv)

lemma roomSuits_kindAppropriate: "roomSuits ty r = kindAppropriate ty r"
  by (cases ty) (simp_all add: roomSuits_def kindAppropriate_def)

lemma selectRoom_Some:
  assumes "selectRoom cat ty = Some r"
  shows "if \<exists>r' \<in> set (rooms cat). kindAppropriate ty r'
         then r \<in> set (rooms cat) \<and> kindAppropriate ty r
         else \<exists>rs. rooms cat = r # rs"
proof (cases "filter (roomSuits ty) (rooms cat)")
  case Nil
  then have no: "\<not> (\<exists>r' \<in> set (rooms cat). kindAppropriate ty r')"
    by (auto simp: filter_empty_conv roomSuits_kindAppropriate)
  from assms Nil have "\<exists>rs. rooms cat = r # rs"
    by (auto simp: selectRoom_def firstOr_def split: list.splits)
  with no show ?thesis by simp
next
  case (Cons r' rs)
  with assms have "r = r'" by (simp add: selectRoom_def firstOr_def)
  moreover from Cons have "r' \<in> set (filter (roomSuits ty) (rooms cat))" by simp
  ultimately have "r \<in> set (rooms cat) \<and> kindAppropriate ty r"
    by (simp add: roomSuits_kindAppropriate)
  then show ?thesis by auto
qed

lemma selectRoom_in: "selectRoom cat ty = Some r \<Longrightarrow> r \<in> set (rooms cat)"
  using selectRoom_Some[of cat ty r] by (auto split: if_splits)

lemma createCourseEntries_eq:
  assumes "faculty cat \<noteq> []" "rooms cat \<noteq> []"
  shows "\<exists>f r. selectFaculty host cat course prog = Some f \<and> selectRoom cat ty = Some r \<and>
           createCourseEntries host cat now k course prog ty hours =
             map (\<lambda>i. newEntry host course prog ty f r i (now (k + i))) [0 ..< nat hours]"
proof -
  from assms obtain f r where "selectFaculty host cat course prog = Some f" "selectRoom cat ty = Some r"
    using selectFaculty_None[where host = host and cat = cat and course = course and prog = prog]
      selectRoom_None[of cat ty] by auto
  then show ?thesis by (simp add: createCourseEntries_def)
qed

lemma createCourseEntries_mem:
  assumes "e \<in> set (createCourseEntries host cat now k course prog ty hours)"
  shows "\<exists>f r i. selectFaculty host cat course prog = Some f \<and> selectRoom cat ty = Some r \<and>
           e = newEntry host course prog ty f r i (now (k + i))"
proof (cases "selectFaculty host cat course prog")
  case None
  with assms show ?thesis by (simp add: createCourseEntries_def)
next
  case sf: (Some f)
  show ?thesis
  proof (cases "selectRoom cat ty")
    case None
    with assms sf show ?thesis by (simp add: createCourseEntries_def)
  next
    case (Some r)
    with assms sf obtain i where "e = newEntry host course prog ty f r i (now (k + i))"
      by (auto simp: createCourseEntries_def)
    with sf Some show ?thesis by blast
  qed
qed

lemma expandCourse_mem:
  assumes "e \<in> set (expandCourse host cat now k course)"
  shows "\<exists>prog ty f r i stamp. find (\<lambda>p. id_program p = program course) (programs cat) = Some prog \<and>
           selectFaculty host cat course prog = Some f \<and> selectRoom cat ty = Some r \<and>
           e = newEntry host course prog ty f r i stamp"
proof (cases "find (\<lambda>p. id_program p = program course) (programs cat)")
  case None
  with assms show ?thesis by (simp add: expandCourse_def)
next
  case (Some prog)
  with assms have "e \<in> set (createCourseEntries host cat now k course prog Theory (theoryHours course))
      \<or> (\<exists>k'. e \<in> set (createCourseEntries host cat now k' course prog Practical (practicalHours course)))"
    by (auto simp: expandCourse_def Let_def split: if_splits)
  then obtain ty k' where "e \<in> set (createCourseEntries host cat now k' course prog ty
      (if ty = Theory then theoryHours course else practicalHours course))"
    by (metis SessionType.distinct(1))
  from createCourseEntries_mem[OF this] Some show ?thesis by blast
qed

lemma expandCourses_all:
  assumes "\<And>e. e \<in> set tt \<Longrightarrow> P e"
    and "\<And>e k course. e \<in> set (expandCourse host cat now k course) \<Longrightarrow> P e"
  shows "\<forall>e \<in> set (expandCourses host cat now cs tt). P e"
  using assms(1)
proof (induction cs arbitrary: tt)
  case Nil
  then show ?case by simp
next
  case (Cons c cs)
  show ?case
    unfolding expandCourses.simps
    by (rule Cons.IH) (use Cons.prems assms(2) in auto)
qed

lemma expandCourses_mem:
  assumes "e \<in> set (expandCourses host cat now cs [])"
  shows "\<exists>course prog ty f r i stamp.
           find (\<lambda>p. id_program p = program course) (programs cat) = Some prog \<and>
           selectFaculty host cat course prog = Some f \<and> selectRoom cat ty = Some r \<and>
           e = newEntry host course prog ty f r i stamp"
proof -
  have "\<forall>e \<in> set (expandCourses host cat now cs []).
          \<exists>course prog ty f r i stamp.
           find (\<lambda>p. id_program p = program course) (programs cat) = Some prog \<and>
           selectFaculty host cat course prog = Some f \<and> selectRoom cat ty = Some r \<and>
           e = newEntry host course prog ty f r i stamp"
    by (rule expandCourses_all) (use expandCourse_mem in \<open>simp, blast\<close>)
  with assms show ?thesis by blast
qed

lemma newEntry_unscheduled: "\<not> isScheduled (newEntry host course prog ty f r i stamp)"
  by (simp add: newEntry_def isScheduled_def)

lemma expandCourses_unscheduled:
  "e \<in> set (expandCourses host cat now cs []) \<Longrightarrow> \<not> isScheduled e"
  by (auto dest!: expandCourses_mem simp: newEntry_unscheduled)

lemma expandCourses_boundTo:
  "e \<in> set (expandCourses host cat now cs []) \<Longrightarrow> boundTo cat e"
  by (auto dest!: expandCourses_mem selectFaculty_in selectRoom_in simp: boundTo_def newEntry_def)

text \<open>
  Every list the generation call hands to the Slot Assigner consists of sessions that are
  unscheduled and bound to a faculty member and a room of the catalog.
\<close>

lemma generateTimetable_input_ready:
  "timetable (generateTimetable host cat now sel) = [] \<or>
   (\<exists>es. timetable (generateTimetable host cat now sel) = scheduleEntries cat es \<and>
         (\<forall>e \<in> set es. \<not> isScheduled e \<and> boundTo cat e))"
proof (cases "programs cat = [] \<or> courses cat = [] \<or> faculty cat = [] \<or> rooms cat = [] \<or>
              filter (\<lambda>course. program course \<in> set sel) (courses cat) = []")
  case True
  then show ?thesis by (auto simp: generateTimetable_def)
next
  case False
  let ?es = "expandCourses host cat now
               (sort_cmp compareCourses (filter (\<lambda>course. program course \<in> set sel) (courses cat))) []"
  from False have "timetable (generateTimetable host cat now sel) = scheduleEntries cat ?es"
    by (simp add: generateTimetable_def Let_def)
  moreover have "\<forall>e \<in> set ?es. \<not> isScheduled e \<and> boundTo cat e"
    using expandCourses_unscheduled expandCourses_boundTo by blast
  ultimately show ?thesis by blast
qed

lemma find_program:
  assumes "program course \<in> set (map id_program (programs cat))"
  shows "\<exists>prog. find (\<lambda>p. id_program p = program course) (programs cat) = Some prog \<and>
           prog \<in> set (programs cat) \<and> id_program prog = program course"
proof (cases "find (\<lambda>p. id_program p = program course) (programs cat)")
  case None
  with assms show ?thesis by (auto simp: find_None_iff)
next
  case (Some prog)
  then show ?thesis by (auto simp: find_Some_iff)
qed

lemma filter_type_newEntry:
  "filter (\<lambda>e. type_entry e = ty') (map (\<lambda>i. newEntry host course prog ty f r i (g i)) xs) =
     (if ty = ty' then map (\<lambda>i. newEntry host course prog ty f r i (g i)) xs else [])"
  by (induction xs) (auto simp: newEntry_def)

lemma digit_chars:
  "char_of (48::nat) = CHR ''0''" "char_of (49::nat) = CHR ''1''" "char_of (50::nat) = CHR ''2''"
  "char_of (51::nat) = CHR ''3''" "char_of (52::nat) = CHR ''4''" "char_of (53::nat) = CHR ''5''"
  "char_of (54::nat) = CHR ''6''" "char_of (55::nat) = CHR ''7''" "char_of (56::nat) = CHR ''8''"
  "char_of (57::nat) = CHR ''9''"
  by code_simp+

lemma numberToString_values:
  "numberToString 0 = ''0''" "numberToString 1 = ''1''" "numberToString (Suc 0) = ''1''"
  "numberToString 1700000000000 = ''1700000000000''"
  "numberToString 1700000000001 = ''1700000000001''"
  by (simp_all add: numberToString.simps digit_chars)

lemma newEntry_Theory:
  "newEntry host course prog Theory f r i stamp =
     \<lparr> id_entry = id_course course @ ''-theory-'' @ numberToString i @ ''-'' @ numberToString stamp,
       courseId = id_course course, courseName = name_course course, courseCode = code course,
       facultyId = id_faculty f, facultyName = name_faculty f,
       roomId = id_room r, roomName = name_room r,
       programId = id_program prog, programName = name_program prog,
       timeSlot = \<lparr> day = [], time = [], duration = 1 \<rparr>,
       studentCount = estimateStudentCount host prog, type_entry = Theory \<rparr>"
  by (simp add: newEntry_def typeToString_def)

lemma newEntry_Practical:
  "newEntry host course prog Practical f r i stamp =
     \<lparr> id_entry = id_course course @ ''-practical-'' @ numberToString i @ ''-'' @ numberToString stamp,
       courseId = id_course course, courseName = name_course course, courseCode = code course,
       facultyId = id_faculty f, facultyName = name_faculty f,
       roomId = id_room r, roomName = name_room r,
       programId = id_program prog, programName = name_program prog,
       timeSlot = \<lparr> day = [], time = [], duration = 1 \<rparr>,
       studentCount = estimateStudentCount host prog, type_entry = Practical \<rparr>"
  by (simp add: newEntry_def typeToString_def)

lemma demo_expandCourse:
  "expandCourse demoHost demoCatalog now 0 demoCourse =
     [newEntry demoHost demoCourse demoProgram Theory demoFaculty demoRoom 0 (now 0),
      newEntry demoHost demoCourse demoProgram Theory demoFaculty demoRoom 1 (now 1),
      newEntry demoHost demoCourse demoProgram Practical demoFaculty demoLab 0 (now 2)]"
proof -
  have sf: "selectFaculty demoHost demoCatalog demoCourse demoProgram = Some demoFaculty"
    by (simp add: selectFaculty_def demoCatalog_def demoFaculty_def demoProgram_def canTeach_def
        firstOr_def Let_def)
  have sr: "selectRoom demoCatalog Theory = Some demoRoom"
    "selectRoom demoCatalog Practical = Some demoLab"
    by (simp_all add: selectRoom_def demoCatalog_def demoRoom_def demoLab_def roomSuits_def
        firstOr_def)
  have fp: "find (\<lambda>p. id_program p = program demoCourse) (programs demoCatalog) = Some demoProgram"
    by (simp add: demoCatalog_def demoCourse_def demoProgram_def)
  have h: "theoryHours demoCourse = 2" "practicalHours demoCourse = 1"
    by (simp_all add: demoCourse_def)
  show ?thesis
    by (simp add: expandCourse_def fp createCourseEntries_def sf sr h upt_conv_Cons
        numeral_2_eq_2)
qed

lemma differ_only_at:
  "j \<noteq> length pre \<Longrightarrow> (pre @ a # suf) ! j = (pre @ b # suf) ! j"
  by (auto simp: nth_append nth_Cons split: nat.splits)

text \<open>
  Claim C2, as stated, fails where it says that the sessions of a batch are identical
  except for the ordinal in the identifier. The identifier also carries the reading of
  the clock taken when the session is created. With a clock that advances between two
  readings, the first two theory sessions of the sample course get the identifiers
  \<open>C1-theory-0-1700000000000\<close> and \<open>C1-theory-1-1700000000001\<close>: no common text
  around the ordinals \<open>0\<close> and \<open>1\<close> produces both.
\<close>

theorem expandCourse_identifiers_counterexample:
  "id_entry (expandCourse demoHost demoCatalog tickingClock 0 demoCourse ! 0)
     = ''C1-theory-0-1700000000000'' \<and>
   id_entry (expandCourse demoHost demoCatalog tickingClock 0 demoCourse ! 1)
     = ''C1-theory-1-1700000000001'' \<and>
   \<not> (\<exists>pre suf.
         id_entry (expandCourse demoHost demoCatalog tickingClock 0 demoCourse ! 0)
           = pre @ numberToString 0 @ suf \<and>
         id_entry (expandCourse demoHost demoCatalog tickingClock 0 demoCourse ! 1)
           = pre @ numberToString 1 @ suf)"
proof -
  let ?es = "expandCourse demoHost demoCatalog tickingClock 0 demoCourse"
  have i0: "id_entry (?es ! 0) = ''C1-theory-0-1700000000000''"
    and i1: "id_entry (?es ! 1) = ''C1-theory-1-1700000000001''"
    unfolding demo_expandCourse
    by (simp_all add: newEntry_Theory tickingClock_def demoCourse_def numberToString_values)
  have n: "\<not> (\<exists>pre suf. ''C1-theory-0-1700000000000'' = pre @ numberToString 0 @ suf \<and>
                     ''C1-theory-1-1700000000001'' = pre @ numberToString 1 @ suf)"
  proof
    assume "\<exists>pre suf. ''C1-theory-0-1700000000000'' = pre @ numberToString 0 @ suf \<and>
                     ''C1-theory-1-1700000000001'' = pre @ numberToString 1 @ suf"
    then obtain pre suf where
      a: "''C1-theory-0-1700000000000'' = pre @ CHR ''0'' # suf"
      and b: "''C1-theory-1-1700000000001'' = pre @ CHR ''1'' # suf"
      by (auto simp: numberToString_values)
    have "(pre @ CHR ''0'' # suf) ! 10 = CHR ''0''" "(pre @ CHR ''1'' # suf) ! 10 = CHR ''1''"
      by (simp_all add: a[symmetric] b[symmetric])
    with differ_only_at[of 10 pre "CHR ''0''" suf "CHR ''1''"] have l1: "length pre = 10"
      by auto
    have "(pre @ CHR ''0'' # suf) ! 24 = CHR ''0''" "(pre @ CHR ''1'' # suf) ! 24 = CHR ''1''"
      by (simp_all add: a[symmetric] b[symmetric])
    with differ_only_at[of 24 pre "CHR ''0''" suf "CHR ''1''"] have "length pre = 24"
      by auto
    with l1 show False by simp
  qed
  show ?thesis unfolding i0 i1 by (intro conjI refl n)
qed

text \<open>
  Claim C2, amended. Take a course with theory-hour count \<open>t \<ge> 0\<close> and practical-hour
  count \<open>p \<ge> 0\<close> whose program id occurs in the program catalog, and a catalog with
  at least one faculty member and at least one room. One pass of the expansion loop for
  that course yields exactly \<open>t\<close> sessions of kind theory followed by exactly
  \<open>p\<close> sessions of kind practical, all for that course. Every one carries the id
  and name of the same faculty member of the catalog; the theory sessions carry the id and
  name of one room of the catalog and the practical sessions those of one room of the
  catalog; every slot is unset. Sessions of the same kind agree in every field but the
  identifier, and the identifier of the session with ordinal \<open>i\<close> (counting from 0
  within its kind) is \<open>courseId-kind-i-clock\<close>, the last part being the reading of
  the clock taken when that session is created.
\<close>

theorem expandCourse_sessions:
  assumes "0 \<le> theoryHours course" "0 \<le> practicalHours course"
    and "program course \<in> set (map id_program (programs cat))"
    and "faculty cat \<noteq> []" "rooms cat \<noteq> []"
  shows "(\<exists>prog f rT rP.
            prog \<in> set (programs cat) \<and> id_program prog = program course \<and>
            f \<in> set (faculty cat) \<and> rT \<in> set (rooms cat) \<and> rP \<in> set (rooms cat) \<and>
            expandCourse host cat now k course =
              map (\<lambda>i. \<lparr> id_entry = id_course course @ ''-theory-'' @ numberToString i
                                 @ ''-'' @ numberToString (now (k + i)),
                      courseId = id_course course, courseName = name_course course,
                      courseCode = code course,
                      facultyId = id_faculty f, facultyName = name_faculty f,
                      roomId = id_room rT, roomName = name_room rT,
                      programId = id_program prog, programName = name_program prog,
                      timeSlot = \<lparr> day = [], time = [], duration = 1 \<rparr>,
                      studentCount = estimateStudentCount host prog,
                      type_entry = Theory \<rparr>)
                  [0 ..< nat (theoryHours course)]
              @ map (\<lambda>i. \<lparr> id_entry = id_course course @ ''-practical-'' @ numberToString i
                                 @ ''-'' @ numberToString (now (k + nat (theoryHours course) + i)),
                      courseId = id_course course, courseName = name_course course,
                      courseCode = code course,
                      facultyId = id_faculty f, facultyName = name_faculty f,
                      roomId = id_room rP, roomName = name_room rP,
                      programId = id_program prog, programName = name_program prog,
                      timeSlot = \<lparr> day = [], time = [], duration = 1 \<rparr>,
                      studentCount = estimateStudentCount host prog,
                      type_entry = Practical \<rparr>)
                    [0 ..< nat (practicalHours course)]) \<and>
         length (filter (\<lambda>e. type_entry e = Theory) (expandCourse host cat now k course))
           = nat (theoryHours course) \<and>
         length (filter (\<lambda>e. type_entry e = Practical) (expandCourse host cat now k course))
           = nat (practicalHours course) \<and>
         (\<forall>e \<in> set (expandCourse host cat now k course).
            courseId e = id_course course \<and>
            timeSlot e = \<lparr> day = [], time = [], duration = 1 \<rparr> \<and> \<not> slotSet e) \<and>
         (\<forall>e \<in> set (expandCourse host cat now k course).
            \<forall>e' \<in> set (expandCourse host cat now k course).
              type_entry e = type_entry e' \<longrightarrow> e\<lparr>id_entry := []\<rparr> = e'\<lparr>id_entry := []\<rparr>)"
proof -
  from find_program[OF assms(3)] obtain prog where
    fp: "find (\<lambda>p. id_program p = program course) (programs cat) = Some prog"
    and pm: "prog \<in> set (programs cat)" "id_program prog = program course" by blast
  let ?t = "theoryHours course" and ?p = "practicalHours course"
  from createCourseEntries_eq[OF assms(4,5), where host = host and course = course
      and prog = prog and ty = Theory and now = now and k = k and hours = "?t"]
  obtain f rT where sf: "selectFaculty host cat course prog = Some f"
    and srT: "selectRoom cat Theory = Some rT"
    and cT: "createCourseEntries host cat now k course prog Theory ?t =
             map (\<lambda>i. newEntry host course prog Theory f rT i (now (k + i))) [0 ..< nat ?t]"
    by blast
  from createCourseEntries_eq[OF assms(4,5), where host = host and course = course
      and prog = prog and ty = Practical and now = now and k = "k + nat ?t" and hours = "?p"] sf
  obtain rP where srP: "selectRoom cat Practical = Some rP"
    and cP: "createCourseEntries host cat now (k + nat ?t) course prog Practical ?p =
             map (\<lambda>i. newEntry host course prog Practical f rP i (now (k + nat ?t + i))) [0 ..< nat ?p]"
    by auto
  let ?T = "map (\<lambda>i. newEntry host course prog Theory f rT i (now (k + i))) [0 ..< nat ?t]"
  let ?P = "map (\<lambda>i. newEntry host course prog Practical f rP i (now (k + nat ?t + i))) [0 ..< nat ?p]"
  have eq: "expandCourse host cat now k course = ?T @ ?P"
  proof -
    have t: "(if ?t > 0 then createCourseEntries host cat now k course prog Theory ?t else []) = ?T"
      using cT by auto
    have p: "(if ?p > 0 then createCourseEntries host cat now (k + nat ?t) course prog Practical ?p
              else []) = ?P"
      using cP by auto
    have len: "length ?T = nat ?t" by simp
    show ?thesis
      by (simp only: expandCourse_def fp option.case Let_def t len p)
  qed
  have mem: "f \<in> set (faculty cat)" "rT \<in> set (rooms cat)" "rP \<in> set (rooms cat)"
    using sf srT srP selectFaculty_in selectRoom_in by blast+
  have c1: "length (filter (\<lambda>e. type_entry e = Theory) (?T @ ?P)) = nat ?t"
    by (simp add: filter_type_newEntry)
  have c2: "length (filter (\<lambda>e. type_entry e = Practical) (?T @ ?P)) = nat ?p"
    by (simp add: filter_type_newEntry)
  have c3: "\<forall>e \<in> set (?T @ ?P). courseId e = id_course course \<and>
            timeSlot e = \<lparr> day = [], time = [], duration = 1 \<rparr> \<and> \<not> slotSet e"
    by (auto simp: newEntry_def slotSet_def)
  have c4: "\<forall>e \<in> set (?T @ ?P). \<forall>e' \<in> set (?T @ ?P).
              type_entry e = type_entry e' \<longrightarrow> e\<lparr>id_entry := []\<rparr> = e'\<lparr>id_entry := []\<rparr>"
    by (auto simp: newEntry_def)
  have ex: "\<exists>prog f rT rP.
            prog \<in> set (programs cat) \<and> id_program prog = program course \<and>
            f \<in> set (faculty cat) \<and> rT \<in> set (rooms cat) \<and> rP \<in> set (rooms cat) \<and>
            expandCourse host cat now k course =
              map (\<lambda>i. \<lparr> id_entry = id_course course @ ''-theory-'' @ numberToString i
                                 @ ''-'' @ numberToString (now (k + i)),
                      courseId = id_course course, courseName = name_course course,
                      courseCode = code course,
                      facultyId = id_faculty f, facultyName = name_faculty f,
                      roomId = id_room rT, roomName = name_room rT,
                      programId = id_program prog, programName = name_program prog,
                      timeSlot = \<lparr> day = [], time = [], duration = 1 \<rparr>,
                      studentCount = estimateStudentCount host prog,
                      type_entry = Theory \<rparr>)
                  [0 ..< nat (theoryHours course)]
              @ map (\<lambda>i. \<lparr> id_entry = id_course course @ ''-practical-'' @ numberToString i
                                 @ ''-'' @ numberToString (now (k + nat (theoryHours course) + i)),
                      courseId = id_course course, courseName = name_course course,
                      courseCode = code course,
                      facultyId = id_faculty f, facultyName = name_faculty f,
                      roomId = id_room rP, roomName = name_room rP,
                      programId = id_program prog, programName = name_program prog,
                      timeSlot = \<lparr> day = [], time = [], duration = 1 \<rparr>,
                      studentCount = estimateStudentCount host prog,
                      type_entry = Practical \<rparr>)
                    [0 ..< nat (practicalHours course)]"
    using eq pm mem unfolding newEntry_Theory newEntry_Practical by blast
  show ?thesis
    unfolding eq[symmetric] using ex c1 c2 c3 c4 unfolding eq by blast
qed

theorem expandCourse_sessions_witness:
  "expandCourse demoHost demoCatalog demoClock 0 demoCourse =
     [\<lparr> id_entry = ''C1-theory-0-1700000000000'', courseId = ''C1'', courseName = ''Mathematics'',
        courseCode = ''M101'', facultyId = ''F1'', facultyName = ''Ann'',
        roomId = ''R1'', roomName = ''Room 1'', programId = ''P1'',
        programName = ''Bachelor of Education'',
        timeSlot = \<lparr> day = [], time = [], duration = 1 \<rparr>,
        studentCount = Students 40, type_entry = Theory \<rparr>,
      \<lparr> id_entry = ''C1-theory-1-1700000000000'', courseId = ''C1'', courseName = ''Mathematics'',
        courseCode = ''M101'', facultyId = ''F1'', facultyName = ''Ann'',
        roomId = ''R1'', roomName = ''Room 1'', programId = ''P1'',
        programName = ''Bachelor of Education'',
        timeSlot = \<lparr> day = [], time = [], duration = 1 \<rparr>,
        studentCount = Students 40, type_entry = Theory \<rparr>,
      \<lparr> id_entry = ''C1-practical-0-1700000000000'', courseId = ''C1'', courseName = ''Mathematics'',
        courseCode = ''M101'', facultyId = ''F1'', facultyName = ''Ann'',
        roomId = ''R2'', roomName = ''Lab 1'', programId = ''P1'',
        programName = ''Bachelor of Education'',
        timeSlot = \<lparr> day = [], time = [], duration = 1 \<rparr>,
        studentCount = Students 40, type_entry = Practical \<rparr>] \<and>
   length (filter (\<lambda>e. type_entry e = Theory)
             (expandCourse demoHost demoCatalog demoClock 0 demoCourse)) = 2 \<and>
   length (filter (\<lambda>e. type_entry e = Practical)
             (expandCourse demoHost demoCatalog demoClock 0 demoCourse)) = 1"
proof -
  have h: "0 \<le> theoryHours demoCourse" "0 \<le> practicalHours demoCourse"
    "program demoCourse \<in> set (map id_program (programs demoCatalog))"
    "faculty demoCatalog \<noteq> []" "rooms demoCatalog \<noteq> []"
    by (simp_all add: demoCourse_def demoCatalog_def demoProgram_def)
  have v: "nat (theoryHours demoCourse) = 2" "nat (practicalHours demoCourse) = 1"
    by (simp_all add: demoCourse_def)
  have l: "expandCourse demoHost demoCatalog demoClock 0 demoCourse =
     [\<lparr> id_entry = ''C1-theory-0-1700000000000'', courseId = ''C1'', courseName = ''Mathematics'',
        courseCode = ''M101'', facultyId = ''F1'', facultyName = ''Ann'',
        roomId = ''R1'', roomName = ''Room 1'', programId = ''P1'',
        programName = ''Bachelor of Education'',
        timeSlot = \<lparr> day = [], time = [], duration = 1 \<rparr>,
        studentCount = Students 40, type_entry = Theory \<rparr>,
      \<lparr> id_entry = ''C1-theory-1-1700000000000'', courseId = ''C1'', courseName = ''Mathematics'',
        courseCode = ''M101'', facultyId = ''F1'', facultyName = ''Ann'',
        roomId = ''R1'', roomName = ''Room 1'', programId = ''P1'',
        programName = ''Bachelor of Education'',
        timeSlot = \<lparr> day = [], time = [], duration = 1 \<rparr>,
        studentCount = Students 40, type_entry = Theory \<rparr>,
      \<lparr> id_entry = ''C1-practical-0-1700000000000'', courseId = ''C1'', courseName = ''Mathematics'',
        courseCode = ''M101'', facultyId = ''F1'', facultyName = ''Ann'',
        roomId = ''R2'', roomName = ''Lab 1'', programId = ''P1'',
        programName = ''Bachelor of Education'',
        timeSlot = \<lparr> day = [], time = [], duration = 1 \<rparr>,
        studentCount = Students 40, type_entry = Practical \<rparr>]"
    unfolding demo_expandCourse
    by (simp add: newEntry_Theory newEntry_Practical demoClock_def demoCourse_def
        demoProgram_def demoFaculty_def demoRoom_def demoLab_def estimateStudentCount_def
        numberToString_values)
  from expandCourse_sessions[OF h, where host = demoHost and now = demoClock and k = 0] v
  have "length (filter (\<lambda>e. type_entry e = Theory)
             (expandCourse demoHost demoCatalog demoClock 0 demoCourse)) = 2"
    and "length (filter (\<lambda>e. type_entry e = Practical)
             (expandCourse demoHost demoCatalog demoClock 0 demoCourse)) = 1"
    by simp_all
  with l show ?thesis by (simp only:)
qed

section \<open>A run on the small catalog\<close>

lemma demo_expand:
  "expandCourses demoHost demoCatalog demoClock [demoCourse] [] =
     demoExpanded"
proof -
  have sf: "selectFaculty demoHost demoCatalog demoCourse demoProgram = Some demoFaculty"
    by (simp add: selectFaculty_def demoCatalog_def demoFaculty_def demoProgram_def canTeach_def
        firstOr_def Let_def)
  have sr: "selectRoom demoCatalog Theory = Some demoRoom"
    "selectRoom demoCatalog Practical = Some demoLab"
    by (simp_all add: selectRoom_def demoCatalog_def demoRoom_def demoLab_def roomSuits_def
        firstOr_def)
  have fp: "find (\<lambda>p. id_program p = program demoCourse) (programs demoCatalog) = Some demoProgram"
    by (simp add: demoCatalog_def demoCourse_def demoProgram_def)
  have h: "theoryHours demoCourse = 2" "practicalHours demoCourse = 1"
    by (simp_all add: demoCourse_def)
  show ?thesis
    by (simp add: expandCourse_def fp createCourseEntries_def sf sr h demoClock_def
        upt_conv_Cons demoExpanded_def)
qed

lemma demoExpanded_ready: "\<forall>e \<in> set demoExpanded. \<not> isScheduled e \<and> boundTo demoCatalog e"
  by (simp add: demoExpanded_def newEntry_def isScheduled_def boundTo_def demoCatalog_def
      demoFaculty_def demoRoom_def demoLab_def)

lemma demo_schedule:
  "scheduleEntries demoCatalog
     demoExpanded
   = demoScheduled"
proof -
  have av: "isSlotAvailable demoCatalog ''F1'' rid d ts =
      ((rid = ''R1'' \<or> rid = ''R2'') \<and> ts \<noteq> ''09:00-10:00'')" for rid d ts
    by (auto simp: isSlotAvailable_def demoCatalog_def demoFaculty_def demoRoom_def demoLab_def)
  have ids: "facultyId (newEntry demoHost demoCourse demoProgram ty demoFaculty r i s) = ''F1''"
    "roomId (newEntry demoHost demoCourse demoProgram ty demoFaculty demoRoom i s) = ''R1''"
    "roomId (newEntry demoHost demoCourse demoProgram ty demoFaculty demoLab i s) = ''R2''" for ty r i s
    by (simp_all add: newEntry_def demoFaculty_def demoRoom_def demoLab_def)
  show ?thesis
    by (simp add: scheduleEntries_def WEEKDAYS_def TIME_SLOTS_def Let_def av ids
        demoExpanded_def demoScheduled_def)
qed

lemma demo_timetable:
  "timetable (generateTimetable demoHost demoCatalog demoClock [''P1'']) =
     demoScheduled"
proof -
  have g: "programs demoCatalog \<noteq> []" "courses demoCatalog = [demoCourse]"
    "faculty demoCatalog \<noteq> []" "rooms demoCatalog \<noteq> []" "program demoCourse = ''P1''"
    by (simp_all add: demoCatalog_def demoCourse_def)
  have r: "filter (\<lambda>course. program course \<in> set [''P1'']) (courses demoCatalog) = [demoCourse]"
    by (simp add: g)
  have s: "sort_cmp compareCourses [demoCourse] = [demoCourse]"
    by (simp add: sort_cmp_def)
  show ?thesis
    unfolding generateTimetable_def Let_def r s demo_expand demo_schedule
    using g by simp
qed

section \<open>The Slot Assigner changes nothing but the slot\<close>

lemma tryTimeSlots_entry:
  "tryTimeSlots cat d tss occ e = (occ', e', b) \<Longrightarrow> \<exists>sl. e' = e\<lparr>timeSlot := sl\<rparr>"
proof (induction tss arbitrary: occ)
  case Nil
  then have "e' = e\<lparr>timeSlot := timeSlot e\<rparr>" by simp
  then show ?case by blast
next
  case (Cons ts tss)
  then show ?case
    by (auto simp: Let_def split: if_splits)
qed

lemma tryWeekdays_entry:
  "tryWeekdays cat ds occ e = (occ', e', b) \<Longrightarrow> \<exists>sl. e' = e\<lparr>timeSlot := sl\<rparr>"
proof (induction ds arbitrary: occ e)
  case Nil
  then have "e' = e\<lparr>timeSlot := timeSlot e\<rparr>" by simp
  then show ?case by blast
next
  case (Cons d ds)
  obtain occ1 e1 b1 where t: "tryTimeSlots cat d TIME_SLOTS occ e = (occ1, e1, b1)"
    by (cases "tryTimeSlots cat d TIME_SLOTS occ e") auto
  from tryTimeSlots_entry[OF t] obtain sl where e1: "e1 = e\<lparr>timeSlot := sl\<rparr>" by blast
  show ?case
  proof (cases b1)
    case True
    with Cons.prems t e1 show ?thesis by auto
  next
    case False
    with Cons.prems t have "tryWeekdays cat ds occ1 e1 = (occ', e', b)" by simp
    from Cons.IH[OF this] e1 show ?thesis by auto
  qed
qed

lemma scheduleLoop_fields:
  "map (\<lambda>e. e\<lparr>timeSlot := sl\<rparr>) (scheduleLoop cat es occ acc) =
   map (\<lambda>e. e\<lparr>timeSlot := sl\<rparr>) (acc @ es)"
proof (induction es arbitrary: occ acc)
  case Nil
  then show ?case by simp
next
  case (Cons e es)
  obtain occ1 e1 b1 where t: "tryWeekdays cat WEEKDAYS occ e = (occ1, e1, b1)"
    by (cases "tryWeekdays cat WEEKDAYS occ e") auto
  from tryWeekdays_entry[OF t] obtain sl' where "e1 = e\<lparr>timeSlot := sl'\<rparr>" by blast
  then have "e1\<lparr>timeSlot := sl\<rparr> = e\<lparr>timeSlot := sl\<rparr>" by simp
  with Cons.IH[of occ1 "acc @ [e1]"] t show ?case by simp
qed

lemma scheduleEntries_fields:
  "map (\<lambda>e. e\<lparr>timeSlot := sl\<rparr>) (scheduleEntries cat es) = map (\<lambda>e. e\<lparr>timeSlot := sl\<rparr>) es"
  by (simp add: scheduleEntries_def scheduleLoop_fields)


lemma scheduleEntries_origin:
  assumes "e \<in> set (scheduleEntries cat es)"
  shows "\<exists>e0 \<in> set es. \<exists>sl. e = e0\<lparr>timeSlot := sl\<rparr>"
proof -
  let ?f = "\<lambda>x. x\<lparr>timeSlot := timeSlot e\<rparr>"
  from assms have "?f e \<in> ?f ` set (scheduleEntries cat es)"
    by (rule imageI)
  then have "?f e \<in> set (map ?f (scheduleEntries cat es))"
    by (simp only: set_map)
  then have "?f e \<in> set (map ?f es)"
    by (simp only: scheduleEntries_fields)
  then obtain e0 where e0: "e0 \<in> set es" "?f e = ?f e0"
    by auto
  from e0(2) have "e = e0\<lparr>timeSlot := timeSlot e\<rparr>" by simp
  with e0(1) show ?thesis by blast
qed

lemma generateTimetable_origin:
  assumes "e \<in> set (timetable (generateTimetable host cat now sel))"
  shows "\<exists>course prog ty f r i stamp sl.
           find (\<lambda>p. id_program p = program course) (programs cat) = Some prog \<and>
           selectFaculty host cat course prog = Some f \<and> selectRoom cat ty = Some r \<and>
           e = (newEntry host course prog ty f r i stamp)\<lparr>timeSlot := sl\<rparr>"
proof -
  from assms obtain cs where "e \<in> set (scheduleEntries cat (expandCourses host cat now cs []))"
    by (auto simp: generateTimetable_def Let_def split: if_splits)
  from scheduleEntries_origin[OF this] obtain e0 sl where
    "e0 \<in> set (expandCourses host cat now cs [])" "e = e0\<lparr>timeSlot := sl\<rparr>" by blast
  with expandCourses_mem[where e = e0 and host = host and cat = cat and now = now and cs = cs]
  show ?thesis by blast
qed

text \<open>
  Claim C7. For every session of a generated timetable: if the room catalog holds a room
  of a category appropriate to the session's kind (theory: Classroom or Seminar Hall;
  practical: Laboratory or Computer Lab), the session carries the id and name of such a
  room of the catalog; otherwise it carries the id and name of the first room of the
  catalog.
\<close>

theorem session_room_kind_appropriate:
  assumes "e \<in> set (timetable (generateTimetable host cat now sel))"
  shows "if \<exists>r \<in> set (rooms cat). kindAppropriate (type_entry e) r
         then \<exists>r \<in> set (rooms cat). kindAppropriate (type_entry e) r \<and>
                roomId e = id_room r \<and> roomName e = name_room r
         else \<exists>r rs. rooms cat = r # rs \<and> roomId e = id_room r \<and> roomName e = name_room r"
proof -
  from generateTimetable_origin[OF assms] obtain course prog ty f r i stamp sl where
    sr: "selectRoom cat ty = Some r"
    and e: "e = (newEntry host course prog ty f r i stamp)\<lparr>timeSlot := sl\<rparr>" by blast
  from e have f: "type_entry e = ty" "roomId e = id_room r" "roomName e = name_room r"
    by (simp_all add: newEntry_def)
  from selectRoom_Some[OF sr] f show ?thesis
    by (auto split: if_splits)
qed

theorem session_room_kind_appropriate_witness:
  "roomId (demoScheduled ! 2) = id_room demoLab \<and> kindAppropriate Practical demoLab \<and>
   type_entry (demoScheduled ! 2) = Practical"
proof -
  have m: "demoScheduled ! 2 \<in> set (timetable (generateTimetable demoHost demoCatalog demoClock [''P1'']))"
    by (simp add: demo_timetable demoScheduled_def)
  have t: "type_entry (demoScheduled ! 2) = Practical"
    by (simp add: demoScheduled_def newEntry_def)
  have k: "\<exists>r \<in> set (rooms demoCatalog). kindAppropriate (type_entry (demoScheduled ! 2)) r"
    by (simp add: t demoCatalog_def kindAppropriate_def demoLab_def)
  from session_room_kind_appropriate[OF m] k
  have "\<exists>r \<in> set (rooms demoCatalog). kindAppropriate (type_entry (demoScheduled ! 2)) r \<and>
          roomId (demoScheduled ! 2) = id_room r \<and> roomName (demoScheduled ! 2) = name_room r"
    by (simp only: if_True)
  then show ?thesis
    by (auto simp: t demoCatalog_def kindAppropriate_def demoLab_def demoRoom_def)
qed

section \<open>Independence of the clock\<close>

lemma withoutId_newEntry:
  "withoutId (newEntry host course prog ty f r i s) = (newEntry host course prog ty f r 0 0)\<lparr>id_entry := []\<rparr>"
  by (simp add: withoutId_def newEntry_def)

lemma createCourseEntries_clock:
  "map withoutId (createCourseEntries host cat now1 k1 course prog ty hours) =
   map withoutId (createCourseEntries host cat now2 k2 course prog ty hours)"
  by (simp add: createCourseEntries_def withoutId_newEntry comp_def split: option.splits)

lemma expandCourse_clock:
  "map withoutId (expandCourse host cat now1 k1 course) = map withoutId (expandCourse host cat now2 k2 course)"
proof (cases "find (\<lambda>p. id_program p = program course) (programs cat)")
  case None
  then show ?thesis by (simp add: expandCourse_def)
next
  case (Some prog)
  have c: "map withoutId (createCourseEntries host cat now1 j1 course prog ty hours) =
           map withoutId (createCourseEntries host cat now2 j2 course prog ty hours)"
    for j1 j2 ty hours
    by (rule createCourseEntries_clock)
  show ?thesis
    unfolding expandCourse_def Some option.case Let_def map_append
    using c
    by (auto intro!: arg_cong2[where f="(@)"] simp: if_distrib[where f="map withoutId"] cong: if_cong)
qed

lemma expandCourses_clock:
  "map withoutId tt1 = map withoutId tt2 \<Longrightarrow>
   map withoutId (expandCourses host cat now1 cs tt1) = map withoutId (expandCourses host cat now2 cs tt2)"
proof (induction cs arbitrary: tt1 tt2)
  case Nil
  then show ?case by simp
next
  case (Cons c cs)
  have "map withoutId (tt1 @ expandCourse host cat now1 (length tt1) c) =
        map withoutId (tt2 @ expandCourse host cat now2 (length tt2) c)"
  proof -
    have "map withoutId (expandCourse host cat now1 (length tt1) c) =
          map withoutId (expandCourse host cat now2 (length tt2) c)"
      by (rule expandCourse_clock)
    with Cons.prems show ?thesis by simp
  qed
  from Cons.IH[OF this] show ?case by simp
qed

lemma tryTimeSlots_withoutId:
  "tryTimeSlots cat d tss occ (withoutId e) =
     (case tryTimeSlots cat d tss occ e of (occ', e', b) \<Rightarrow> (occ', withoutId e', b))"
  by (induction tss arbitrary: occ) (simp_all add: Let_def withoutId_def)

lemma tryWeekdays_withoutId:
  "tryWeekdays cat ds occ (withoutId e) =
     (case tryWeekdays cat ds occ e of (occ', e', b) \<Rightarrow> (occ', withoutId e', b))"
proof (induction ds arbitrary: occ e)
  case Nil
  then show ?case by simp
next
  case (Cons d ds)
  obtain occ1 e1 b1 where t: "tryTimeSlots cat d TIME_SLOTS occ e = (occ1, e1, b1)"
    by (cases "tryTimeSlots cat d TIME_SLOTS occ e") auto
  show ?case
    by (simp add: tryTimeSlots_withoutId t Cons.IH)
qed

lemma scheduleLoop_withoutId:
  "scheduleLoop cat (map withoutId es) occ (map withoutId acc) =
   map withoutId (scheduleLoop cat es occ acc)"
proof (induction es arbitrary: occ acc)
  case Nil
  then show ?case by simp
next
  case (Cons e es)
  obtain occ1 e1 b1 where t: "tryWeekdays cat WEEKDAYS occ e = (occ1, e1, b1)"
    by (cases "tryWeekdays cat WEEKDAYS occ e") auto
  from Cons.IH[of occ1 "acc @ [e1]"] show ?case
    by (simp add: tryWeekdays_withoutId t)
qed

lemma scheduleEntries_withoutId:
  "scheduleEntries cat (map withoutId es) = map withoutId (scheduleEntries cat es)"
  using scheduleLoop_withoutId[of cat es Map.empty "[]"] by (simp add: scheduleEntries_def)

lemma repeatConflicts_withoutId:
  "repeatConflicts k (map withoutId es) = repeatConflicts k es"
proof -
  have f: "facultyId (withoutId e) = facultyId e" "roomId (withoutId e) = roomId e"
    "facultyConflict k (withoutId e) = facultyConflict k e"
    "roomConflict k (withoutId e) = roomConflict k e" for e
    by (simp_all add: withoutId_def facultyConflict_def roomConflict_def)
  show ?thesis
    unfolding repeatConflicts_def
    by (intro arg_cong[where f=concat] map_cong) (simp_all add: take_map f comp_def)
qed

lemma detectByKey_withoutId: "detectByKey (map withoutId tt) = detectByKey tt"
proof -
  have f: "isScheduled (withoutId e) = isScheduled e" "slotKeyOf (withoutId e) = slotKeyOf e"
    "unscheduledConflict (withoutId e) = unscheduledConflict e" for e
    by (simp_all add: withoutId_def isScheduled_def slotKeyOf_def unscheduledConflict_def)
  show ?thesis
    by (simp add: detectByKey_def filter_map comp_def f repeatConflicts_withoutId)
qed

lemma detectConflicts_withoutId: "detectConflicts (map withoutId tt) = detectConflicts tt"
  by (simp add: detectConflicts_byKey detectByKey_withoutId)

text \<open>
  Claim C8. Two runs of the generation call on the same catalog and the same selected
  programs, whatever the clock returns in either run, give session lists that are equal
  field by field once the identifiers are blanked (same sessions in the same order with
  the same faculty, rooms and slots), and give equal conflict lists, success flags and
  messages.
\<close>

theorem generateTimetable_deterministic:
  "map withoutId (timetable (generateTimetable host cat now1 sel)) =
   map withoutId (timetable (generateTimetable host cat now2 sel)) \<and>
   conflicts (generateTimetable host cat now1 sel) = conflicts (generateTimetable host cat now2 sel) \<and>
   success (generateTimetable host cat now1 sel) = success (generateTimetable host cat now2 sel) \<and>
   message (generateTimetable host cat now1 sel) = message (generateTimetable host cat now2 sel)"
proof -
  let ?cs = "sort_cmp compareCourses (filter (\<lambda>course. program course \<in> set sel) (courses cat))"
  let ?s1 = "scheduleEntries cat (expandCourses host cat now1 ?cs [])"
  let ?s2 = "scheduleEntries cat (expandCourses host cat now2 ?cs [])"
  have e: "map withoutId (expandCourses host cat now1 ?cs []) = map withoutId (expandCourses host cat now2 ?cs [])"
    by (rule expandCourses_clock) simp
  have s: "map withoutId ?s1 = map withoutId ?s2"
    using arg_cong[OF e, of "scheduleEntries cat"] by (simp only: scheduleEntries_withoutId)
  have d: "detectConflicts ?s1 = detectConflicts ?s2"
    using arg_cong[OF s, of detectConflicts] by (simp only: detectConflicts_withoutId)
  have r: "generateTimetable host cat now sel =
      (if programs cat = [] \<or> courses cat = [] \<or> faculty cat = [] \<or> rooms cat = []
       then \<lparr> timetable = [], conflicts = [], success = False,
              message = ''Please ensure you have added programs, courses, faculty, and rooms before generating timetable.'' \<rparr>
       else if filter (\<lambda>course. program course \<in> set sel) (courses cat) = []
       then \<lparr> timetable = [], conflicts = [], success = False,
              message = ''No courses found for selected programs.'' \<rparr>
       else \<lparr> timetable = scheduleEntries cat (expandCourses host cat now ?cs []),
              conflicts = detectConflicts (scheduleEntries cat (expandCourses host cat now ?cs [])),
              success = (length (filter (\<lambda>c. severity c = high)
                 (detectConflicts (scheduleEntries cat (expandCourses host cat now ?cs [])))) = 0),
              message =
                (if length (detectConflicts (scheduleEntries cat (expandCourses host cat now ?cs []))) = 0
                 then ''Timetable generated successfully without conflicts!''
                 else ''Timetable generated with ''
                      @ numberToString (length (detectConflicts
                           (scheduleEntries cat (expandCourses host cat now ?cs []))))
                      @ '' conflicts. Please review and resolve.'') \<rparr>)" for now
    by (simp add: generateTimetable_def Let_def)
  show ?thesis
    unfolding r[of now1] r[of now2] d using s by simp
qed

section \<open>Courses without a program in the catalog\<close>

lemma compareCourses_courseKey: "(compareCourses a b \<le> 0) = (courseKey a \<le> courseKey b)"
  by (auto simp: compareCourses_def courseKey_def less_eq_prod_def)

lemma insort_cmp_courseKey: "insort_cmp compareCourses x ys = insort_key courseKey x ys"
  by (induction ys) (simp_all add: compareCourses_courseKey)

lemma sort_cmp_courseKey: "sort_cmp compareCourses xs = sort_key courseKey xs"
  by (induction xs) (simp_all add: sort_cmp_def sort_key_def insort_cmp_courseKey)

lemma filter_sort_cmp:
  "filter P (sort_cmp compareCourses xs) = sort_cmp compareCourses (filter P xs)"
  by (simp add: sort_cmp_courseKey filter_sort)

lemma hasProgram_find:
  "hasProgram cat course = (find (\<lambda>p. id_program p = program course) (programs cat) \<noteq> None)"
  by (force simp: hasProgram_def find_None_iff)

lemma expandCourse_orphan: "\<not> hasProgram cat course \<Longrightarrow> expandCourse host cat now k course = []"
  by (simp add: hasProgram_find expandCourse_def)

lemma expandCourses_skip:
  "expandCourses host cat now cs tt = expandCourses host cat now (filter (hasProgram cat) cs) tt"
  by (induction cs arbitrary: tt) (simp_all add: expandCourse_orphan)

lemma expandCourses_sorted_without:
  assumes "\<not> hasProgram cat c"
  shows "expandCourses host cat now (sort_cmp compareCourses (filter P (cs1 @ c # cs2))) tt =
         expandCourses host cat now (sort_cmp compareCourses (filter P (cs1 @ cs2))) tt"
proof -
  have f: "filter (hasProgram cat) (filter P (cs1 @ c # cs2)) =
           filter (hasProgram cat) (filter P (cs1 @ cs2))"
    using assms by simp
  have "expandCourses host cat now (sort_cmp compareCourses (filter P (cs1 @ c # cs2))) tt =
        expandCourses host cat now (sort_cmp compareCourses (filter (hasProgram cat) (filter P (cs1 @ c # cs2)))) tt"
    by (subst expandCourses_skip) (simp only: filter_sort_cmp)
  also have "\<dots> = expandCourses host cat now (sort_cmp compareCourses (filter (hasProgram cat) (filter P (cs1 @ cs2)))) tt"
    by (simp only: f)
  also have "\<dots> = expandCourses host cat now (sort_cmp compareCourses (filter P (cs1 @ cs2))) tt"
    by (subst (2) expandCourses_skip) (simp only: filter_sort_cmp)
  finally show ?thesis .
qed

lemma selectFaculty_courses [simp]:
  "selectFaculty host (cat\<lparr>courses := cs\<rparr>) course prog = selectFaculty host cat course prog"
  by (simp add: selectFaculty_def Let_def)

lemma selectRoom_courses [simp]: "selectRoom (cat\<lparr>courses := cs\<rparr>) ty = selectRoom cat ty"
  by (simp add: selectRoom_def)

lemma createCourseEntries_courses [simp]:
  "createCourseEntries host (cat\<lparr>courses := cs\<rparr>) now k course prog ty h =
   createCourseEntries host cat now k course prog ty h"
  by (simp add: createCourseEntries_def split: option.splits)

lemma expandCourse_courses [simp]:
  "expandCourse host (cat\<lparr>courses := cs\<rparr>) now k course = expandCourse host cat now k course"
  by (simp add: expandCourse_def Let_def split: option.splits)

lemma expandCourses_courses [simp]:
  "expandCourses host (cat\<lparr>courses := cs\<rparr>) now xs tt = expandCourses host cat now xs tt"
  by (induction xs arbitrary: tt) simp_all

lemma isSlotAvailable_courses [simp]:
  "isSlotAvailable (cat\<lparr>courses := cs\<rparr>) fid rid d ts = isSlotAvailable cat fid rid d ts"
  by (simp add: isSlotAvailable_def split: option.splits)

lemma tryTimeSlots_courses [simp]:
  "tryTimeSlots (cat\<lparr>courses := cs\<rparr>) d tss occ e = tryTimeSlots cat d tss occ e"
  by (induction tss arbitrary: occ) (simp_all add: Let_def)

lemma tryWeekdays_courses [simp]:
  "tryWeekdays (cat\<lparr>courses := cs\<rparr>) ds occ e = tryWeekdays cat ds occ e"
  by (induction ds arbitrary: occ e) (simp_all split: prod.splits)

lemma scheduleLoop_courses [simp]:
  "scheduleLoop (cat\<lparr>courses := cs\<rparr>) es occ acc = scheduleLoop cat es occ acc"
  by (induction es arbitrary: occ acc) (simp_all split: prod.splits)

lemma scheduleEntries_courses [simp]:
  "scheduleEntries (cat\<lparr>courses := cs\<rparr>) es = scheduleEntries cat es"
  by (simp add: scheduleEntries_def)

lemma resultOf_courses [simp]: "resultOf (cat\<lparr>courses := cs\<rparr>) tt = resultOf cat tt"
  by (simp add: resultOf_def)

lemma resultOf_Nil:
  "resultOf cat [] = \<lparr> timetable = [], conflicts = [], success = True,
                        message = ''Timetable generated successfully without conflicts!'' \<rparr>"
  by (simp add: resultOf_def scheduleEntries_def detectConflicts_def)

lemma generateTimetable_run:
  assumes "programs cat \<noteq> []" "faculty cat \<noteq> []" "rooms cat \<noteq> []"
    and "filter (\<lambda>course. program course \<in> set sel) (courses cat) \<noteq> []"
  shows "generateTimetable host cat now sel =
           resultOf cat (expandCourses host cat now
             (sort_cmp compareCourses (filter (\<lambda>course. program course \<in> set sel) (courses cat))) [])"
proof -
  from assms(4) have "courses cat \<noteq> []" by auto
  with assms show ?thesis
    by (simp add: generateTimetable_def Let_def resultOf_def del: expandCourses.simps)
qed

lemma generateTimetable_programId:
  assumes "e \<in> set (timetable (generateTimetable host cat now sel))"
  shows "programId e \<in> set (map id_program (programs cat))"
proof -
  from generateTimetable_origin[OF assms] obtain course prog ty f r i stamp sl where
    fp: "find (\<lambda>p. id_program p = program course) (programs cat) = Some prog"
    and e: "e = (newEntry host course prog ty f r i stamp)\<lparr>timeSlot := sl\<rparr>" by blast
  from fp have "prog \<in> set (programs cat)" by (auto simp: find_Some_iff)
  with e show ?thesis by (simp add: newEntry_def)
qed

text \<open>
  Claim C9. A selected course whose program reference matches no program id of the
  catalog leaves no trace: the result is the result of the same call on the catalog
  without that course, except that where it was the only selected course (and programs,
  faculty and rooms are not empty) the call returns an empty timetable with no conflict,
  the success flag true and the success message. No session of the result carries the
  course's program reference.
\<close>

theorem orphan_course_skipped:
  assumes "program c \<notin> set (map id_program (programs cat))"
    and "program c \<in> set sel"
    and "courses cat = cs1 @ c # cs2"
  shows "generateTimetable host cat now sel =
           (if programs cat \<noteq> [] \<and> faculty cat \<noteq> [] \<and> rooms cat \<noteq> [] \<and>
               filter (\<lambda>course. program course \<in> set sel) (cs1 @ cs2) = []
            then \<lparr> timetable = [], conflicts = [], success = True,
                   message = ''Timetable generated successfully without conflicts!'' \<rparr>
            else generateTimetable host (cat\<lparr>courses := cs1 @ cs2\<rparr>) now sel) \<and>
         (\<forall>e \<in> set (timetable (generateTimetable host cat now sel)). programId e \<noteq> program c)"
proof
  let ?P = "\<lambda>course. program course \<in> set sel"
  have orphan: "\<not> hasProgram cat c" using assms(1) by (simp add: hasProgram_def)
  have ex: "expandCourses host cat now (sort_cmp compareCourses (filter ?P (cs1 @ c # cs2))) [] =
            expandCourses host cat now (sort_cmp compareCourses (filter ?P (cs1 @ cs2))) []"
    by (rule expandCourses_sorted_without[OF orphan])
  have rel: "filter ?P (cs1 @ c # cs2) \<noteq> []" using assms(2) by simp
  show "generateTimetable host cat now sel =
           (if programs cat \<noteq> [] \<and> faculty cat \<noteq> [] \<and> rooms cat \<noteq> [] \<and>
               filter ?P (cs1 @ cs2) = []
            then \<lparr> timetable = [], conflicts = [], success = True,
                   message = ''Timetable generated successfully without conflicts!'' \<rparr>
            else generateTimetable host (cat\<lparr>courses := cs1 @ cs2\<rparr>) now sel)"
  proof (cases "programs cat = [] \<or> faculty cat = [] \<or> rooms cat = []")
    case True
    then show ?thesis by (auto simp: generateTimetable_def)
  next
    case False
    then have ne: "programs cat \<noteq> []" "faculty cat \<noteq> []" "rooms cat \<noteq> []" by simp_all
    have rel': "filter ?P (courses cat) \<noteq> []" unfolding assms(3) by (rule rel)
    have run: "generateTimetable host cat now sel =
        resultOf cat (expandCourses host cat now (sort_cmp compareCourses (filter ?P (cs1 @ cs2))) [])"
      using generateTimetable_run[OF ne rel', where host = host and now = now] ex
      by (simp only: assms(3))
    show ?thesis
    proof (cases "filter ?P (cs1 @ cs2) = []")
      case True
      then have "sort_cmp compareCourses (filter ?P (cs1 @ cs2)) = []"
        by (simp add: sort_cmp_def)
      with run True ne show ?thesis
        by (simp add: resultOf_Nil)
    next
      case other: False
      have g': "generateTimetable host (cat\<lparr>courses := cs1 @ cs2\<rparr>) now sel =
          resultOf cat (expandCourses host cat now (sort_cmp compareCourses (filter ?P (cs1 @ cs2))) [])"
        using generateTimetable_run[where cat = "cat\<lparr>courses := cs1 @ cs2\<rparr>" and sel = sel
            and now = now and host = host] ne other
        by simp
      from other have c: "\<not> (programs cat \<noteq> [] \<and> faculty cat \<noteq> [] \<and> rooms cat \<noteq> [] \<and>
               filter ?P (cs1 @ cs2) = [])" by blast
      show ?thesis by (simp only: if_not_P[OF c] run g')
    qed
  qed
next
  show "\<forall>e \<in> set (timetable (generateTimetable host cat now sel)). programId e \<noteq> program c"
    using generateTimetable_programId[where host = host and cat = cat and now = now and sel = sel]
      assms(1) by metis
qed

theorem orphan_course_skipped_witness:
  "generateTimetable demoHost (demoCatalog\<lparr>courses := [orphanCourse]\<rparr>) demoClock [''P9''] =
     \<lparr> timetable = [], conflicts = [], success = True,
       message = ''Timetable generated successfully without conflicts!'' \<rparr>"
proof -
  have a: "program orphanCourse \<notin> set (map id_program (programs (demoCatalog\<lparr>courses := [orphanCourse]\<rparr>)))"
    "program orphanCourse \<in> set [''P9'']"
    "courses (demoCatalog\<lparr>courses := [orphanCourse]\<rparr>) = [] @ orphanCourse # []"
    by (simp_all add: orphanCourse_def demoCatalog_def demoProgram_def)
  from orphan_course_skipped[OF a, where host = demoHost and now = demoClock] show ?thesis
    by (simp add: demoCatalog_def)
qed

section \<open>The Slot Assigner is first fit over the grid\<close>

lemma find_append_cases:
  "find P (xs @ ys) = (case find P xs of None \<Rightarrow> find P ys | Some x \<Rightarrow> Some x)"
  by (induction xs) simp_all

lemma find_map_Pair:
  "find P (map (\<lambda>ts. (d, ts)) tss) = map_option (\<lambda>ts. (d, ts)) (find (\<lambda>ts. P (d, ts)) tss)"
  by (induction tss) simp_all

lemma cellsOf_Cons: "cellsOf (d # ds) tss = map (\<lambda>ts. (d, ts)) tss @ cellsOf ds tss"
  by (simp add: cellsOf_def)

lemma occ_has_init:
  "occ_has (if occ k = None then occ(k \<mapsto> {}) else occ) = occ_has occ"
  by (auto simp: occ_has_def fun_eq_iff split: option.splits)

lemma the_init:
  "(tag \<in> the ((if occ k = None then occ(k \<mapsto> {}) else occ) k)) = occ_has occ k tag"
  by (auto simp: occ_has_def split: option.splits)

lemma occ_has_upd:
  "occ_has (occ(k \<mapsto> S)) = (\<lambda>k' tag. if k' = k then tag \<in> S else occ_has occ k' tag)"
  by (auto simp: occ_has_def fun_eq_iff)

text \<open>What one assignment adds to the occupancy.\<close>

lemma tryTimeSlots_step:
  "tryTimeSlots cat d (ts # tss) occ e =
     (if keyOpen cat (occ_has occ) e (d, ts)
      then ((if occ (d @ ''-'' @ ts) = None then occ(d @ ''-'' @ ts \<mapsto> {}) else occ)
              (d @ ''-'' @ ts \<mapsto> insert (''room-'' @ roomId e) (insert (''faculty-'' @ facultyId e)
                 (the ((if occ (d @ ''-'' @ ts) = None then occ(d @ ''-'' @ ts \<mapsto> {}) else occ)
                        (d @ ''-'' @ ts))))),
            e\<lparr>timeSlot := \<lparr>day = d, time = ts, duration = 1\<rparr>\<rparr>, True)
      else tryTimeSlots cat d tss
             (if occ (d @ ''-'' @ ts) = None then occ(d @ ''-'' @ ts \<mapsto> {}) else occ) e)"
  by (simp add: Let_def keyOpen_def the_init cong: if_cong)

lemma tryTimeSlots_find:
  "tryTimeSlots cat d tss occ e = (occ', e', b) \<Longrightarrow>
   (case find (\<lambda>ts. keyOpen cat (occ_has occ) e (d, ts)) tss of
      None \<Rightarrow> \<not> b \<and> e' = e \<and> occ_has occ' = occ_has occ
    | Some ts \<Rightarrow> b \<and> e' = e\<lparr>timeSlot := \<lparr>day = d, time = ts, duration = 1\<rparr>\<rparr> \<and>
        occ_has occ' = (\<lambda>k tag. occ_has occ k tag \<or>
           (k = d @ ''-'' @ ts \<and> (tag = ''faculty-'' @ facultyId e \<or> tag = ''room-'' @ roomId e))))"
proof (induction tss arbitrary: occ)
  case Nil
  then show ?case by simp
next
  case (Cons ts tss)
  let ?k = "d @ ''-'' @ ts"
  let ?occ1 = "if occ ?k = None then occ(?k \<mapsto> {}) else occ"
  have h1: "occ_has ?occ1 = occ_has occ" by (rule occ_has_init)
  show ?case
  proof (cases "keyOpen cat (occ_has occ) e (d, ts)")
    case True
    from Cons.prems have r: "b" "e' = e\<lparr>timeSlot := \<lparr>day = d, time = ts, duration = 1\<rparr>\<rparr>"
      "occ' = ?occ1(?k \<mapsto> insert (''room-'' @ roomId e)
                 (insert (''faculty-'' @ facultyId e) (the (?occ1 ?k))))"
      unfolding tryTimeSlots_step if_P[OF True] by simp_all
    have "occ_has occ' k tag = (occ_has occ k tag \<or>
           (k = ?k \<and> (tag = ''faculty-'' @ facultyId e \<or> tag = ''room-'' @ roomId e)))" for k tag
      unfolding r(3) occ_has_upd
      using the_init[of tag occ ?k] h1 by (cases "k = ?k") auto
    then have "occ_has occ' = (\<lambda>k tag. occ_has occ k tag \<or>
           (k = ?k \<and> (tag = ''faculty-'' @ facultyId e \<or> tag = ''room-'' @ roomId e)))"
      by (intro ext)
    with r True show ?thesis by simp
  next
    case False
    from Cons.prems have "tryTimeSlots cat d tss ?occ1 e = (occ', e', b)"
      unfolding tryTimeSlots_step if_not_P[OF False] .
    from Cons.IH[OF this, unfolded h1] False show ?thesis by simp
  qed
qed

lemma tryWeekdays_find:
  "tryWeekdays cat ds occ e = (occ', e', b) \<Longrightarrow>
   (case find (keyOpen cat (occ_has occ) e) (cellsOf ds TIME_SLOTS) of
      None \<Rightarrow> \<not> b \<and> e' = e \<and> occ_has occ' = occ_has occ
    | Some c \<Rightarrow> b \<and> e' = e\<lparr>timeSlot := \<lparr>day = fst c, time = snd c, duration = 1\<rparr>\<rparr> \<and>
        occ_has occ' = (\<lambda>k tag. occ_has occ k tag \<or>
           (k = fst c @ ''-'' @ snd c \<and>
            (tag = ''faculty-'' @ facultyId e \<or> tag = ''room-'' @ roomId e))))"
proof (induction ds arbitrary: occ)
  case Nil
  then show ?case by (simp add: cellsOf_def)
next
  case (Cons d ds)
  obtain occ1 e1 b1 where t: "tryTimeSlots cat d TIME_SLOTS occ e = (occ1, e1, b1)"
    by (cases "tryTimeSlots cat d TIME_SLOTS occ e") auto
  note ft = tryTimeSlots_find[OF t]
  show ?case
  proof (cases "find (\<lambda>ts. keyOpen cat (occ_has occ) e (d, ts)) TIME_SLOTS")
    case (Some ts)
    with ft have "b1" and r: "e1 = e\<lparr>timeSlot := \<lparr>day = d, time = ts, duration = 1\<rparr>\<rparr>"
      "occ_has occ1 = (\<lambda>k tag. occ_has occ k tag \<or>
           (k = d @ ''-'' @ ts \<and> (tag = ''faculty-'' @ facultyId e \<or> tag = ''room-'' @ roomId e)))"
      by simp_all
    with Cons.prems t have "occ' = occ1" "e' = e1" "b" by simp_all
    with r Some show ?thesis
      by (simp add: cellsOf_Cons find_append_cases find_map_Pair)
  next
    case None
    with ft have nb: "\<not> b1" and r: "e1 = e" "occ_has occ1 = occ_has occ" by simp_all
    with Cons.prems t have "tryWeekdays cat ds occ1 e = (occ', e', b)" by simp
    from Cons.IH[OF this, unfolded r(2)] None show ?thesis
      by (simp add: cellsOf_Cons find_append_cases find_map_Pair)
  qed
qed

lemma grid_cell:
  "c \<in> set grid \<Longrightarrow> fst c \<noteq> [] \<and> snd c \<noteq> [] \<and> CHR ''-'' \<notin> set (fst c)"
  by (auto simp: grid_def cellsOf_def WEEKDAYS_def TIME_SLOTS_def)


lemma find_in_set: "find P xs = Some x \<Longrightarrow> x \<in> set xs \<and> P x"
  by (induction xs) (auto split: if_splits)

text \<open>The occupancy map records exactly the cells of the sessions placed so far.\<close>

lemma keyOpen_slotOpen:
  assumes inv: "occ_has occ = (\<lambda>k tag. \<exists>e' \<in> set acc. occupies e' k tag)"
    and wf: "\<forall>e' \<in> set acc. isScheduled e' \<longrightarrow> cellOf e' \<in> set grid"
    and c: "c \<in> set grid"
  shows "keyOpen cat (occ_has occ) e c = slotOpen cat acc e c"
proof -
  obtain d ts where cd: "c = (d, ts)" by (cases c)
  from grid_cell[OF c] cd have hd: "CHR ''-'' \<notin> set d" by simp
  have key: "(slotKeyOf e' = d @ CHR ''-'' # ts) = (cellOf e' = (d, ts))"
    if "e' \<in> set acc" "isScheduled e'" for e'
  proof -
    from wf that have "cellOf e' \<in> set grid" by blast
    from grid_cell[OF this] have "CHR ''-'' \<notin> set (day (timeSlot e'))"
      by (simp add: cellOf_def)
    then show ?thesis using hd by (rule slotKeyOf_eq_iff)
  qed
  have "(occ_has occ (d @ ''-'' @ ts) (''faculty-'' @ facultyId e) \<or>
         occ_has occ (d @ ''-'' @ ts) (''room-'' @ roomId e)) = cellTaken acc e d ts"
    unfolding inv cellTaken_def occupies_def using key by auto
  then show ?thesis
    by (auto simp: keyOpen_def slotOpen_def cd)
qed

lemma tryWeekdays_placeEntry:
  assumes inv: "occ_has occ = (\<lambda>k tag. \<exists>e' \<in> set acc. occupies e' k tag)"
    and wf: "\<forall>e' \<in> set acc. isScheduled e' \<longrightarrow> cellOf e' \<in> set grid"
    and un: "\<not> isScheduled e"
    and t: "tryWeekdays cat WEEKDAYS occ e = (occ', e', b)"
  shows "e' = placeEntry cat acc e \<and>
         occ_has occ' = (\<lambda>k tag. \<exists>x \<in> set (acc @ [e']). occupies x k tag) \<and>
         (\<forall>x \<in> set (acc @ [e']). isScheduled x \<longrightarrow> cellOf x \<in> set grid)"
proof -
  have fe: "find (keyOpen cat (occ_has occ) e) grid = find (slotOpen cat acc e) grid"
    by (rule find_cong[OF refl]) (rule keyOpen_slotOpen[OF inv wf])
  note ft = tryWeekdays_find[OF t, folded grid_def, unfolded fe]
  show ?thesis
  proof (cases "find (slotOpen cat acc e) grid")
    case None
    with ft have r: "e' = e" "occ_has occ' = occ_has occ" by simp_all
    from un have "\<not> occupies e k tag" for k tag by (simp add: occupies_def)
    with r None inv wf un show ?thesis
      by (auto simp: placeEntry_def)
  next
    case (Some c)
    with ft have r: "e' = e\<lparr>timeSlot := \<lparr>day = fst c, time = snd c, duration = 1\<rparr>\<rparr>"
      "occ_has occ' = (\<lambda>k tag. occ_has occ k tag \<or>
           (k = fst c @ ''-'' @ snd c \<and>
            (tag = ''faculty-'' @ facultyId e \<or> tag = ''room-'' @ roomId e)))"
      by simp_all
    from find_in_set[OF Some] have cg: "c \<in> set grid" by simp
    from grid_cell[OF cg] have sch: "isScheduled e'" and ce: "cellOf e' = c"
      by (simp_all add: r(1) isScheduled_def cellOf_def)
    have oc: "occupies e' k tag = (k = fst c @ ''-'' @ snd c \<and>
            (tag = ''faculty-'' @ facultyId e \<or> tag = ''room-'' @ roomId e))" for k tag
      using sch by (auto simp: occupies_def slotKeyOf_def r(1))
    have "occ_has occ' = (\<lambda>k tag. \<exists>x \<in> set (acc @ [e']). occupies x k tag)"
      unfolding r(2) inv by (rule ext, rule ext) (auto simp: oc)
    moreover have "e' = placeEntry cat acc e" by (simp add: placeEntry_def Some r(1))
    moreover have "\<forall>x \<in> set (acc @ [e']). isScheduled x \<longrightarrow> cellOf x \<in> set grid"
      using wf ce cg by auto
    ultimately show ?thesis by blast
  qed
qed

lemma scheduleLoop_placeAll:
  assumes "occ_has occ = (\<lambda>k tag. \<exists>e' \<in> set acc. occupies e' k tag)"
    and "\<forall>e' \<in> set acc. isScheduled e' \<longrightarrow> cellOf e' \<in> set grid"
    and "\<forall>e \<in> set es. \<not> isScheduled e"
  shows "scheduleLoop cat es occ acc = placeAll cat acc es \<and>
         (\<forall>x \<in> set (placeAll cat acc es). isScheduled x \<longrightarrow> cellOf x \<in> set grid)"
  using assms
proof (induction es arbitrary: occ acc)
  case Nil
  then show ?case by simp
next
  case (Cons e es)
  obtain occ1 e1 b1 where t: "tryWeekdays cat WEEKDAYS occ e = (occ1, e1, b1)"
    by (cases "tryWeekdays cat WEEKDAYS occ e") auto
  from Cons.prems(3) have un: "\<not> isScheduled e" and rest: "\<forall>e \<in> set es. \<not> isScheduled e"
    by simp_all
  from tryWeekdays_placeEntry[OF Cons.prems(1,2) un t]
  have e1: "e1 = placeEntry cat acc e"
    and inv1: "occ_has occ1 = (\<lambda>k tag. \<exists>x \<in> set (acc @ [e1]). occupies x k tag)"
    and wf1: "\<forall>x \<in> set (acc @ [e1]). isScheduled x \<longrightarrow> cellOf x \<in> set grid"
    by blast+
  from Cons.IH[OF inv1 wf1 rest] t e1 show ?case by simp
qed

lemma scheduleEntries_placeAll:
  assumes "\<forall>e \<in> set es. \<not> isScheduled e"
  shows "scheduleEntries cat es = placeAll cat [] es"
    and "\<forall>x \<in> set (scheduleEntries cat es). isScheduled x \<longrightarrow> cellOf x \<in> set grid"
proof -
  have "occ_has Map.empty = (\<lambda>k tag. \<exists>e' \<in> set []. occupies e' k tag)"
    by (simp add: occ_has_def fun_eq_iff)
  from scheduleLoop_placeAll[OF this _ assms, of cat]
  show "scheduleEntries cat es = placeAll cat [] es"
    and "\<forall>x \<in> set (scheduleEntries cat es). isScheduled x \<longrightarrow> cellOf x \<in> set grid"
    by (simp_all add: scheduleEntries_def)
qed

section \<open>First fit, session by session\<close>



lemma placeEntry_unchanged_fields:
  "facultyId (placeEntry cat earlier e) = facultyId e"
  "roomId (placeEntry cat earlier e) = roomId e"
  by (simp_all add: placeEntry_def split: option.splits)

lemma placeEntry_scheduled:
  assumes "\<not> isScheduled e" "isScheduled (placeEntry cat earlier e)"
  shows "\<not> cellTaken earlier e (day (timeSlot (placeEntry cat earlier e)))
                                 (time (timeSlot (placeEntry cat earlier e)))"
proof (cases "find (slotOpen cat earlier e) grid")
  case None
  with assms show ?thesis by (simp add: placeEntry_def)
next
  case (Some c)
  from find_in_set[OF Some] have "\<not> cellTaken earlier e (fst c) (snd c)"
    by (simp add: slotOpen_def)
  with Some show ?thesis by (simp add: placeEntry_def)
qed

text \<open>Within one cell no faculty id and no room id repeats.\<close>

lemma placeAll_distinct:
  assumes "\<forall>e \<in> set es. \<not> isScheduled e"
    and "distinct (map facultyId (filter (\<lambda>e. isScheduled e \<and> cellOf e = c) acc))"
    and "distinct (map roomId (filter (\<lambda>e. isScheduled e \<and> cellOf e = c) acc))"
  shows "distinct (map facultyId (filter (\<lambda>e. isScheduled e \<and> cellOf e = c) (placeAll cat acc es))) \<and>
         distinct (map roomId (filter (\<lambda>e. isScheduled e \<and> cellOf e = c) (placeAll cat acc es)))"
  using assms
proof (induction es arbitrary: acc)
  case Nil
  then show ?case by simp
next
  case (Cons e es)
  let ?e1 = "placeEntry cat acc e"
  let ?P = "\<lambda>e. isScheduled e \<and> cellOf e = c"
  from Cons.prems(1) have un: "\<not> isScheduled e" and rest: "\<forall>e \<in> set es. \<not> isScheduled e"
    by simp_all
  have "distinct (map facultyId (filter ?P (acc @ [?e1]))) \<and>
        distinct (map roomId (filter ?P (acc @ [?e1])))"
  proof (cases "?P ?e1")
    case False
    then have "filter ?P (acc @ [?e1]) = filter ?P acc" by simp
    with Cons.prems(2,3) show ?thesis by (simp only:)
  next
    case True
    then have s: "isScheduled ?e1" and ce: "cellOf ?e1 = c" by simp_all
    from placeEntry_scheduled[OF un s] ce
    have "\<not> cellTaken acc e (fst c) (snd c)" by (auto simp: cellOf_def)
    then have "\<forall>e' \<in> set (filter ?P acc). facultyId e' \<noteq> facultyId ?e1 \<and> roomId e' \<noteq> roomId ?e1"
      by (auto simp: cellTaken_def placeEntry_unchanged_fields)
    then have "facultyId ?e1 \<notin> set (map facultyId (filter ?P acc))"
      "roomId ?e1 \<notin> set (map roomId (filter ?P acc))" by force+
    moreover from True have "filter ?P (acc @ [?e1]) = filter ?P acc @ [?e1]" by simp
    ultimately show ?thesis using Cons.prems(2,3) by simp
  qed
  then have "distinct (map facultyId (filter ?P (placeAll cat (acc @ [?e1]) es))) \<and>
         distinct (map roomId (filter ?P (placeAll cat (acc @ [?e1]) es)))"
    by (intro Cons.IH[OF rest]) simp_all
  then show ?case by simp
qed

lemma distinct_nth_take: "distinct xs \<Longrightarrow> i < length xs \<Longrightarrow> xs ! i \<notin> set (take i xs)"
proof -
  assume d: "distinct xs" and i: "i < length xs"
  from i have "xs = take i xs @ xs ! i # drop (Suc i) xs" by (rule id_take_nth_drop)
  with d have "distinct (take i xs @ xs ! i # drop (Suc i) xs)" by simp
  then show ?thesis by simp
qed

lemma repeatConflicts_distinct:
  assumes "distinct (map facultyId es)" "distinct (map roomId es)"
  shows "repeatConflicts k es = []"
proof -
  have "facultyId (es ! i) \<notin> set (map facultyId (take i es)) \<and>
        roomId (es ! i) \<notin> set (map roomId (take i es))" if "i < length es" for i
    using distinct_nth_take[OF assms(1), of i] distinct_nth_take[OF assms(2), of i] that
    by (simp add: take_map)
  then show ?thesis by (simp add: repeatConflicts_def)
qed

text \<open>
  Claim C1. For every catalog and every list of sessions that come in unscheduled (as
  every list the generation call passes on does, \<open>generateTimetable_input_ready\<close>), after
  the Slot Assigner the sessions with a set slot in any one (day, time) cell have pairwise
  different faculty ids and pairwise different room ids; and the Conflict Detector run on
  the assigner's output returns exactly the "could not be scheduled" records of the
  sessions left without a slot, hence no faculty collision and no room collision.
\<close>

theorem scheduleEntries_no_collision:
  assumes "\<forall>e \<in> set entries. \<not> isScheduled e"
  shows "(\<forall>d ts.
            distinct (map facultyId (filter (\<lambda>e. isScheduled e \<and> cellOf e = (d, ts))
                                            (scheduleEntries cat entries))) \<and>
            distinct (map roomId (filter (\<lambda>e. isScheduled e \<and> cellOf e = (d, ts))
                                         (scheduleEntries cat entries)))) \<and>
         detectConflicts (scheduleEntries cat entries) =
           map unscheduledConflict (filter (\<lambda>e. \<not> isScheduled e) (scheduleEntries cat entries))"
proof -
  let ?out = "scheduleEntries cat entries"
  have pl: "?out = placeAll cat [] entries"
    and og: "\<forall>x \<in> set ?out. isScheduled x \<longrightarrow> cellOf x \<in> set grid"
    using scheduleEntries_placeAll[OF assms] by blast+
  have dist: "distinct (map facultyId (filter (\<lambda>e. isScheduled e \<and> cellOf e = c) ?out)) \<and>
              distinct (map roomId (filter (\<lambda>e. isScheduled e \<and> cellOf e = c) ?out))" for c
    unfolding pl by (rule placeAll_distinct[OF assms]) simp_all
  have hy: "\<forall>e \<in> set ?out. isScheduled e \<longrightarrow> CHR ''-'' \<notin> set (day (timeSlot e))"
    using og grid_cell by (fastforce simp: cellOf_def)
  have "detectConflicts ?out = detectByCell ?out"
    by (simp only: detectConflicts_byKey detectByKey_byCell[OF hy])
  also have "\<dots> = map unscheduledConflict (filter (\<lambda>e. \<not> isScheduled e) ?out)"
    unfolding detectByCell_def
    using dist by (simp add: repeatConflicts_distinct split_def)
  finally show ?thesis using dist by blast
qed

theorem scheduleEntries_no_collision_witness:
  "detectConflicts (scheduleEntries demoCatalog demoExpanded) = [] \<and>
   map facultyId (filter (\<lambda>e. isScheduled e \<and> cellOf e = (''Monday'', ''10:00-11:00''))
                         (scheduleEntries demoCatalog demoExpanded)) = [''F1'']"
proof -
  have h: "\<forall>e \<in> set demoExpanded. \<not> isScheduled e"
    using demoExpanded_ready by blast
  have u: "filter (\<lambda>e. \<not> isScheduled e) demoScheduled = []"
    by (simp add: demoScheduled_def isScheduled_def)
  have g: "map facultyId (filter (\<lambda>e. isScheduled e \<and> cellOf e = (''Monday'', ''10:00-11:00''))
                         demoScheduled) = [''F1'']"
    by (simp add: demoScheduled_def isScheduled_def cellOf_def newEntry_def demoFaculty_def)
  from scheduleEntries_no_collision[OF h, of demoCatalog] u g show ?thesis
    by (simp add: demo_schedule)
qed





end
